theory Spec2Isabelle
  imports Complex_Main "HOL-Library.Word"
begin

section \<open>The axis engine of Wisteria Dataviz (src/base/axis.cpp)\<close>

text \<open>
  Conventions of the embedding.
  \<^item> A C++ \<open>double\<close> is a \<^typ>\<open>real\<close>: arithmetic is exact, rounding of IEEE
    arithmetic and NaN are outside the model.
  \<^item> \<open>wxCoord\<close>, \<open>int\<close> and \<open>long\<close> are \<^typ>\<open>int\<close>; a conversion from
    \<open>double\<close> to one of them is \<open>trunc_int\<close> (truncation toward zero).
  \<^item> \<open>size_t\<close> is \<^typ>\<open>64 word\<close> and \<open>uint8_t\<close> is \<^typ>\<open>8 word\<close>, so that
    \<open>+\<close> and \<open>-\<close> wrap as in the source.
  \<^item> A member function that mutates the axis takes the axis and returns the new one.
  \<^item> A loop that the source could run forever returns \<open>None\<close> in that case.
\<close>

subsection \<open>Helpers that axis.cpp calls\<close>

text \<open>
  Modelled from the spec: \<open>safe_divide\<close> and \<open>safe_modulus\<close> are declared in a
  header that is not part of the sources at hand. Section 7 of the specification says
  that a degenerate divisor gives a neutral zero result instead of a division by zero.
\<close>

definition safe_divide :: "real \<Rightarrow> real \<Rightarrow> real" where
  "safe_divide dividend divisor =
     (if dividend = 0 \<or> divisor = 0 then 0 else dividend / divisor)"

text \<open>Integer division of C++ truncates toward zero.\<close>

definition c_div :: "int \<Rightarrow> int \<Rightarrow> int" where
  "c_div a b = sgn a * sgn b * (\<bar>a\<bar> div \<bar>b\<bar>)"

definition safe_divide_long :: "int \<Rightarrow> int \<Rightarrow> int" where
  "safe_divide_long dividend divisor =
     (if dividend = 0 \<or> divisor = 0 then 0 else c_div dividend divisor)"

definition safe_divide_size_t :: "64 word \<Rightarrow> 64 word \<Rightarrow> 64 word" where
  "safe_divide_size_t dividend divisor =
     (if dividend = 0 \<or> divisor = 0 then 0 else dividend div divisor)"

definition safe_modulus_size_t :: "64 word \<Rightarrow> 64 word \<Rightarrow> 64 word" where
  "safe_modulus_size_t dividend divisor =
     (if dividend = 0 \<or> divisor = 0 then 0 else dividend mod divisor)"

text \<open>
  \<open>compare_doubles\<close> is declared in a header that is not part of the sources at hand.
  It is the comparison of two doubles up to a tolerance (the reversed search loop of
  \<open>GetPhysicalCoordinate\<close> calls it next to \<open>>=\<close>); the tolerance is the parameter
  \<open>tol\<close> of the model, and \<open>tol = 0\<close> makes it exact equality.
\<close>

definition compare_doubles :: "real \<Rightarrow> real \<Rightarrow> real \<Rightarrow> bool" where
  "compare_doubles tol actual expected = (\<bar>actual - expected\<bar> \<le> tol)"

text \<open>Conversion of a double to an integer type.\<close>

definition trunc_int :: "real \<Rightarrow> int" where
  "trunc_int x = (if 0 \<le> x then \<lfloor>x\<rfloor> else \<lceil>x\<rceil>)"

text \<open>\<open>static_cast<size_t>\<close> of a double (defined by C++ for values below \<open>2^64\<close>).\<close>

definition size_t_of_double :: "real \<Rightarrow> 64 word" where
  "size_t_of_double x = word_of_int (trunc_int x)"

subsection \<open>Data model\<close>

datatype AxisType = BottomXAxis | TopXAxis | LeftYAxis | RightYAxis

datatype AxisResetLevel =
  CosmeticSettings | Brackets | TitleHeaderFooter | RangeAndLabelValues | AllSettings

datatype AxisLabelDisplay =
  DisplayValues | DisplayCustomLabelsOrValues | DisplayOnlyCustomLabels
  | DisplayCustomLabelsAndValues | NoDisplay

datatype AxisLabelOrientation = Parallel | Perpendicular

text \<open>
  A label, as far as the axis looks at it: its text and its \<open>IsOk()\<close> flag.
  \<open>Label(GraphItemInfo().Ok(false))\<close> is \<open>invalid_label\<close>.
\<close>

record Label =
  label_text :: string
  label_ok :: bool

definition invalid_label :: Label where
  "invalid_label = \<lparr>label_text = [], label_ok = False\<rparr>"

definition blank_label :: Label where
  "blank_label = \<lparr>label_text = [], label_ok = True\<rparr>"

record wxPoint =
  pt_x :: int
  pt_y :: int

text \<open>
  Modelled from the spec: class \<open>AxisPoint\<close> is declared in axis.h, which is not part
  of the sources at hand. Section 3 of the specification gives its attributes: the value
  (a double), the display text, the shown flag and the physical coordinate, an integer
  pixel; equality and ordering for lookups compare only the value.
\<close>

record AxisPoint =
  m_value :: real
  m_displayValue :: string
  m_show :: bool
  m_physicalCoordinate :: int

text \<open>\<open>AxisPoint(value, text, show)\<close>; the coordinate is not resolved yet.\<close>

definition new_AxisPoint :: "real \<Rightarrow> string \<Rightarrow> bool \<Rightarrow> AxisPoint" where
  "new_AxisPoint v txt sh =
     \<lparr>m_value = v, m_displayValue = txt, m_show = sh, m_physicalCoordinate = - 1\<rparr>"

text \<open>\<open>AxisPoint::operator==(double)\<close> and \<open>AxisPoint::operator<(double)\<close>: equality
  of doubles is \<open>compare_doubles\<close>.\<close>

definition point_eq :: "real \<Rightarrow> AxisPoint \<Rightarrow> real \<Rightarrow> bool" where
  "point_eq tol p v = compare_doubles tol (m_value p) v"

definition point_less :: "AxisPoint \<Rightarrow> real \<Rightarrow> bool" where
  "point_less p v = (m_value p < v)"

text \<open>
  The members of \<open>Axis\<close> that the functions below read or write. Pens, fonts, colours,
  brackets and tick marks are left out: none of the modelled functions reads them.
\<close>

record Axis =
  m_type :: AxisType
  m_axisLabels :: "AxisPoint list"
  m_customAxisLabels :: "real \<rightharpoonup> Label"
  m_rangeStart :: real
  m_rangeEnd :: real
  m_displayPrecision :: "8 word"
  m_interval :: real
  m_tickMarkInterval :: real
  m_displayInterval :: "64 word"
  m_scaledReserved :: bool
  m_startAtZero :: bool
  m_widestLabel :: Label
  m_tallestLabel :: Label
  m_points :: "wxPoint \<times> wxPoint"
  m_labelSpacingPhysicalOffset :: real
  m_stackLabelsToFit :: bool
  m_enableAutoStacking :: bool
  m_labelDisplay :: AxisLabelDisplay
  m_labelOrientation :: AxisLabelOrientation
  m_showOuterLabels :: bool
  m_scaling :: real
  m_axisLabelScaling :: real
  m_maxLabelWidth :: int
  m_title :: Label
  m_header :: Label
  m_footer :: Label

text \<open>
  Modelled from the spec: the accessors of \<open>Axis\<close> (\<open>IsVertical\<close>, \<open>IsReversed\<close>,
  \<open>GetAxisPoints\<close>, \<open>GetTopPoint\<close>, \<open>IsShowingLabels\<close> and the like) are declared in
  axis.h, which is not part of the sources at hand. Each reads the attribute that
  section 3 of the specification names: the orientation tag, the reversed flag, the
  point collection, the two endpoint pixels (top or left point stored first).
\<close>

definition IsVertical :: "Axis \<Rightarrow> bool" where
  "IsVertical a = (m_type a = LeftYAxis \<or> m_type a = RightYAxis)"

definition IsHorizontal :: "Axis \<Rightarrow> bool" where
  "IsHorizontal a = (m_type a = BottomXAxis \<or> m_type a = TopXAxis)"

definition IsReversed :: "Axis \<Rightarrow> bool" where
  "IsReversed a = m_scaledReserved a"

definition IsStartingAtZero :: "Axis \<Rightarrow> bool" where
  "IsStartingAtZero a = m_startAtZero a"

definition GetAxisPoints :: "Axis \<Rightarrow> AxisPoint list" where
  "GetAxisPoints a = m_axisLabels a"

definition GetAxisPointsCount :: "Axis \<Rightarrow> nat" where
  "GetAxisPointsCount a = length (m_axisLabels a)"

text \<open>The first stored endpoint is the top or left one, the second the bottom or right one.\<close>

definition GetTopPoint :: "Axis \<Rightarrow> wxPoint" where
  "GetTopPoint a = fst (m_points a)"

definition GetBottomPoint :: "Axis \<Rightarrow> wxPoint" where
  "GetBottomPoint a = snd (m_points a)"

definition GetLeftPoint :: "Axis \<Rightarrow> wxPoint" where
  "GetLeftPoint a = fst (m_points a)"

definition GetRightPoint :: "Axis \<Rightarrow> wxPoint" where
  "GetRightPoint a = snd (m_points a)"

subsection \<open>ReverseScale\<close>

definition ReverseScale :: "bool \<Rightarrow> Axis \<Rightarrow> Axis" where
  "ReverseScale reverse a =
     (let a1 = (if reverse \<and> \<not> IsReversed a then a\<lparr>m_axisLabels := rev (m_axisLabels a)\<rparr>
                else if \<not> reverse \<and> IsReversed a then a\<lparr>m_axisLabels := rev (m_axisLabels a)\<rparr>
                else a)
      in a1\<lparr>m_scaledReserved := reverse,
             m_widestLabel := invalid_label, m_tallestLabel := invalid_label\<rparr>)"

subsection \<open>GetPhysicalCoordinate and GetValueFromPhysicalCoordinate\<close>

text \<open>
  \<open>std::lower_bound\<close> with \<open>AxisPoint::operator<(double)\<close>: the position of the first
  point that is not less than the value, on a collection sorted by value (what the
  standard requires of the caller). The position past the end is the length.
\<close>

fun lower_bound :: "AxisPoint list \<Rightarrow> real \<Rightarrow> nat" where
  "lower_bound [] v = 0"
| "lower_bound (p # ps) v = (if point_less p v then Suc (lower_bound ps v) else 0)"

text \<open>The search loop of the reversed branch.\<close>

fun reversed_search :: "real \<Rightarrow> AxisPoint list \<Rightarrow> real \<Rightarrow> nat" where
  "reversed_search tol [] v = 0"
| "reversed_search tol (p # ps) v =
     (if v \<ge> m_value p \<or> compare_doubles tol v (m_value p) then 0
      else Suc (reversed_search tol ps v))"

text \<open>The position that the search of \<open>GetPhysicalCoordinate\<close> finds.\<close>

definition value_position :: "real \<Rightarrow> Axis \<Rightarrow> real \<Rightarrow> nat" where
  "value_position tol a v =
     (if IsReversed a then reversed_search tol (GetAxisPoints a) v
      else lower_bound (GetAxisPoints a) v)"

text \<open>The result is the returned flag and the out-parameter \<open>result\<close>.\<close>

definition GetPhysicalCoordinate :: "real \<Rightarrow> Axis \<Rightarrow> real \<Rightarrow> bool \<times> int" where
  "GetPhysicalCoordinate tol a v =
     (if GetAxisPointsCount a = 0 then (False, - 1)
      else
        let pts = GetAxisPoints a;
            pos = value_position tol a v
        in if pos = length pts then (False, - 1)
           else if point_eq tol (pts ! pos) v then (True, m_physicalCoordinate (pts ! pos))
           else if pos = 0 then (False, - 1)
           else
             let previousLine = pts ! (pos - 1);
                 lowerLineValue = m_value previousLine;
                 upperLineValue = m_value (pts ! pos);
                 percentage = safe_divide (v - lowerLineValue) (upperLineValue - lowerLineValue)
             in if IsHorizontal a then
                  let coordinateDifference =
                        m_physicalCoordinate (pts ! pos) - m_physicalCoordinate previousLine
                  in (True, trunc_int (real_of_int (m_physicalCoordinate previousLine) +
                                       real_of_int coordinateDifference * percentage))
                else if IsVertical a then
                  let coordinateDifference =
                        m_physicalCoordinate previousLine - m_physicalCoordinate (pts ! pos)
                  in (True, trunc_int (real_of_int (m_physicalCoordinate previousLine) -
                                       real_of_int coordinateDifference * percentage))
                else (False, - 1))"

text \<open>The search loop of \<open>GetValueFromPhysicalCoordinate\<close>; \<open>None\<close> is the early
  \<open>return false\<close> of an axis that is neither horizontal nor vertical.\<close>

fun coordinate_search :: "Axis \<Rightarrow> AxisPoint list \<Rightarrow> int \<Rightarrow> nat option" where
  "coordinate_search a [] c = Some 0"
| "coordinate_search a (p # ps) c =
     (if IsHorizontal a then
        (if c \<le> m_physicalCoordinate p then Some 0
         else map_option Suc (coordinate_search a ps c))
      else if IsVertical a then
        (if c \<ge> m_physicalCoordinate p then Some 0
         else map_option Suc (coordinate_search a ps c))
      else None)"

definition GetValueFromPhysicalCoordinate :: "Axis \<Rightarrow> int \<Rightarrow> bool \<times> real" where
  "GetValueFromPhysicalCoordinate a coordinate =
     (if GetAxisPointsCount a = 0 then (False, - 1)
      else
        let pts = GetAxisPoints a in
        case coordinate_search a pts coordinate of
          None \<Rightarrow> (False, - 1)
        | Some pos \<Rightarrow>
            if pos = length pts then (False, - 1)
            else if coordinate = m_physicalCoordinate (pts ! pos)
              then (True, m_value (pts ! pos))
            else if pos = 0 then (False, - 1)
            else
              let previousLine = pts ! (pos - 1);
                  lowerLineValue = real_of_int (m_physicalCoordinate previousLine);
                  upperLineValue = real_of_int (m_physicalCoordinate (pts ! pos));
                  percentage = safe_divide (real_of_int coordinate - lowerLineValue)
                                           (upperLineValue - lowerLineValue)
              in if IsHorizontal a then
                   let coordinateDifference = m_value (pts ! pos) - m_value previousLine
                   in (True, m_value previousLine + coordinateDifference * percentage)
                 else if IsVertical a then
                   let coordinateDifference = m_value previousLine - m_value (pts ! pos)
                   in (True, m_value previousLine - coordinateDifference * percentage)
                 else (False, - 1))"

subsection \<open>Reset\<close>

text \<open>The assignments of \<open>Reset\<close> to the members of the record; the cosmetic level
  and the brackets level touch only members that are left out.\<close>

definition Reset :: "AxisResetLevel \<Rightarrow> Axis \<Rightarrow> Axis" where
  "Reset level a =
     (let a1 = (if level = TitleHeaderFooter \<or> level = AllSettings
                then a\<lparr>m_title := blank_label, m_header := blank_label, m_footer := blank_label\<rparr>
                else a);
          a2 = (if level = RangeAndLabelValues \<or> level = AllSettings
                then a1\<lparr>m_axisLabels := [], m_customAxisLabels := Map.empty,
                        m_labelSpacingPhysicalOffset := 0,
                        m_rangeStart := 0, m_rangeEnd := 0,
                        m_displayPrecision := 0, m_interval := 1, m_displayInterval := 1,
                        m_widestLabel := invalid_label, m_tallestLabel := invalid_label\<rparr>
                else a1)
      in if level = AllSettings
         then a2\<lparr>m_stackLabelsToFit := False, m_enableAutoStacking := IsHorizontal a2,
                 m_scaledReserved := False, m_startAtZero := False,
                 m_labelDisplay := DisplayCustomLabelsOrValues\<rparr>
         else a2)"

subsection \<open>SetRange\<close>

text \<open>
  \<open>wxNumberFormatter::ToString\<close> belongs to the GUI toolkit; the formatter is the
  parameter \<open>fmt\<close> of the model.

  The loop of the forward branch,
  \<open>for (double i = rangeStart; i < (rangeEnd+interval); i += interval)\<close>,
  with the label collection, \<open>currentDisplayInterval\<close> and \<open>lastValidPoint\<close> as
  accumulators. With an interval that is not positive the loop counter never reaches
  the bound: that is the result \<open>None\<close>.
\<close>

function SetRange_forward ::
  "(real \<Rightarrow> 8 word \<Rightarrow> string) \<Rightarrow> 8 word \<Rightarrow> real \<Rightarrow> 64 word \<Rightarrow> real \<Rightarrow>
   real \<Rightarrow> 64 word \<Rightarrow> AxisPoint list \<Rightarrow> real \<Rightarrow> (AxisPoint list \<times> real) option" where
  "SetRange_forward fmt precision interval displayInterval rangeEnd
       i currentDisplayInterval labels lastValidPoint =
     (if i < rangeEnd + interval then
        (if interval \<le> 0 then None
         else SetRange_forward fmt precision interval displayInterval rangeEnd
                (i + interval)
                (if currentDisplayInterval = 1 then displayInterval
                 else currentDisplayInterval - 1)
                (labels @ [new_AxisPoint i (fmt i precision) (currentDisplayInterval = 1)])
                i)
      else Some (labels, lastValidPoint))"
  by pat_completeness auto
termination
proof (relation "measure (\<lambda>(fmt, precision, interval, displayInterval, rangeEnd, i, cdi, labels, l).
                            nat \<lceil>(rangeEnd + interval - i) / interval\<rceil>)", goal_cases)
  case 1
  show ?case by simp
next
  case (2 fmt precision interval displayInterval rangeEnd i cdi labels l)
  then have pos: "0 < interval" and lt: "0 < rangeEnd + interval - i" by simp_all
  have eq: "(rangeEnd + interval - (i + interval)) / interval
              = (rangeEnd + interval - i) / interval - 1"
    using pos by (simp add: field_simps)
  have "0 < (rangeEnd + interval - i) / interval" using pos lt by simp
  then have "0 < \<lceil>(rangeEnd + interval - i) / interval\<rceil>" by simp
  then show ?case unfolding in_measure case_prod_conv eq by simp
qed

text \<open>The loop of the reversed branch,
  \<open>for (double i = rangeEnd; i > (rangeStart-interval); i -= interval)\<close>.\<close>

function SetRange_backward ::
  "(real \<Rightarrow> 8 word \<Rightarrow> string) \<Rightarrow> 8 word \<Rightarrow> real \<Rightarrow> 64 word \<Rightarrow> real \<Rightarrow>
   real \<Rightarrow> 64 word \<Rightarrow> AxisPoint list \<Rightarrow> real \<Rightarrow> (AxisPoint list \<times> real) option" where
  "SetRange_backward fmt precision interval displayInterval rangeStart
       i currentDisplayInterval labels lastValidPoint =
     (if i > rangeStart - interval then
        (if interval \<le> 0 then None
         else SetRange_backward fmt precision interval displayInterval rangeStart
                (i - interval)
                (if currentDisplayInterval = 1 then displayInterval
                 else currentDisplayInterval - 1)
                (labels @ [new_AxisPoint i (fmt i precision) (currentDisplayInterval = 1)])
                i)
      else Some (labels, lastValidPoint))"
  by pat_completeness auto
termination
proof (relation "measure (\<lambda>(fmt, precision, interval, displayInterval, rangeStart, i, cdi, labels, l).
                            nat \<lceil>(i - (rangeStart - interval)) / interval\<rceil>)", goal_cases)
  case 1
  show ?case by simp
next
  case (2 fmt precision interval displayInterval rangeStart i cdi labels l)
  then have pos: "0 < interval" and lt: "0 < i - (rangeStart - interval)" by simp_all
  have eq: "(i - interval - (rangeStart - interval)) / interval
              = (i - (rangeStart - interval)) / interval - 1"
    using pos by (simp add: field_simps)
  have "0 < (i - (rangeStart - interval)) / interval" using pos lt by simp
  then have "0 < \<lceil>(i - (rangeStart - interval)) / interval\<rceil>" by simp
  then show ?case unfolding in_measure case_prod_conv eq by simp
qed

text \<open>\<open>if (IsStartingAtZero()) { rangeStart = std::min<double>(0, rangeStart); }\<close>\<close>

definition clamp_start :: "Axis \<Rightarrow> real \<Rightarrow> real" where
  "clamp_start a rangeStart = (if IsStartingAtZero a then min 0 rangeStart else rangeStart)"

text \<open>
  The statements of the numeric overload between its guard and its loops: a range
  with equal endpoints is widened by the interval (by 1 if the interval is 0), then an
  interval that is not positive is replaced by half of the range. The result is
  \<open>(rangeStart, rangeEnd, interval)\<close> as the loops see them.
\<close>

definition SetRange_bounds :: "real \<Rightarrow> real \<Rightarrow> real \<Rightarrow> real \<times> real \<times> real" where
  "SetRange_bounds rangeStart1 rangeEnd0 interval0 =
     (let interval1 = (if rangeEnd0 = rangeStart1 \<and> interval0 = 0 then 1 else interval0);
          rangeStart = (if rangeEnd0 = rangeStart1 then rangeStart1 - interval1
                        else rangeStart1);
          rangeEnd = (if rangeEnd0 = rangeStart1 then rangeEnd0 + interval1 else rangeEnd0);
          interval = (if interval1 \<le> 0 then safe_divide (rangeEnd - rangeStart) 2
                      else interval1)
      in (rangeStart, rangeEnd, interval))"

text \<open>
  The numeric overload
  \<open>SetRange(rangeStart, rangeEnd, precision, interval, displayInterval)\<close>.
  \<open>SetInterval\<close> and \<open>SetTickMarkInterval\<close> store their argument. The debug-only
  \<open>wxASSERT\<close> is not part of the release behaviour that is modelled.
\<close>

definition SetRange ::
  "(real \<Rightarrow> 8 word \<Rightarrow> string) \<Rightarrow> real \<Rightarrow> real \<Rightarrow> 8 word \<Rightarrow> real \<Rightarrow> 64 word \<Rightarrow>
   Axis \<Rightarrow> Axis option" where
  "SetRange fmt rangeStart0 rangeEnd0 precision interval0 displayInterval a =
     (let a1 = a\<lparr>m_widestLabel := invalid_label, m_tallestLabel := invalid_label\<rparr>;
          rangeStart1 = clamp_start a1 rangeStart0
      in if rangeEnd0 < rangeStart1 then Some a1
         else
           let a2 = a1\<lparr>m_displayPrecision := precision, m_interval := interval0,
                        m_tickMarkInterval := interval0, m_displayInterval := displayInterval\<rparr>;
               (rangeStart, rangeEnd, interval) = SetRange_bounds rangeStart1 rangeEnd0 interval0;
               a3 = a2\<lparr>m_axisLabels := []\<rparr>
           in if IsReversed a3 then
                (case SetRange_backward fmt precision interval displayInterval rangeStart
                        rangeEnd 1 [] rangeEnd of
                   None \<Rightarrow> None
                 | Some (labels, lastValidPoint) \<Rightarrow>
                     Some (a3\<lparr>m_axisLabels := labels, m_rangeStart := rangeEnd,
                              m_rangeEnd := lastValidPoint\<rparr>))
              else
                (case SetRange_forward fmt precision interval displayInterval rangeEnd
                        rangeStart 1 [] rangeStart of
                   None \<Rightarrow> None
                 | Some (labels, lastValidPoint) \<Rightarrow>
                     Some (a3\<lparr>m_axisLabels := labels, m_rangeStart := rangeStart,
                              m_rangeEnd := lastValidPoint\<rparr>)))"

text \<open>The overload that chooses the interval,
  \<open>SetRange(rangeStart, rangeEnd, precision, includeExtraInterval)\<close>.\<close>

definition rangeDivisionFactor :: "real \<Rightarrow> 64 word" where
  "rangeDivisionFactor rangeSize =
     (if rangeSize > 100000000 then 100000000
      else if rangeSize > 10000000 then 10000000
      else if rangeSize > 1000000 then 1000000
      else if rangeSize > 100000 then 100000
      else if rangeSize > 10000 then 10000
      else if rangeSize > 1000 then 1000
      else if rangeSize > 100 then 100
      else if rangeSize > 10 then 10
      else 1)"

text \<open>The interval that the overload chooses for a range size.\<close>

definition auto_intervalSize :: "real \<Rightarrow> real" where
  "auto_intervalSize rangeSize =
     (if rangeSize \<le> 1 then 2 / 10
      else if rangeSize \<ge> 100 then
        real_of_int \<lceil>safe_divide rangeSize (real (unat (rangeDivisionFactor rangeSize)))\<rceil> *
          real (unat (safe_divide_size_t (rangeDivisionFactor rangeSize) 10))
      else if rangeSize \<ge> 20 then 5
      else real_of_int \<lceil>safe_divide rangeSize 10\<rceil>)"

definition SetRange_auto ::
  "(real \<Rightarrow> 8 word \<Rightarrow> string) \<Rightarrow> real \<Rightarrow> real \<Rightarrow> 8 word \<Rightarrow> bool \<Rightarrow> Axis \<Rightarrow> Axis option" where
  "SetRange_auto fmt rangeStart0 rangeEnd precision0 includeExtraInterval a =
     (let rangeStart = clamp_start a rangeStart0;
          rangeSize0 = rangeEnd - rangeStart;
          intervalSize = auto_intervalSize rangeSize0;
          precision = (if rangeSize0 \<le> 1 \<and> precision0 = 0 then 1 else precision0);
          remainder = safe_modulus_size_t (size_t_of_double rangeSize0)
                                          (size_t_of_double intervalSize);
          rangeSize1 = (if rangeSize0 \<le> 1 then rangeSize0
                        else if remainder \<noteq> 0
                          then (rangeSize0 - real (unat remainder)) + intervalSize
                        else rangeSize0);
          rangeSize = rangeSize1 + (if includeExtraInterval then intervalSize else 0)
      in SetRange fmt rangeStart (rangeStart + rangeSize) precision intervalSize 1 a)"

subsection \<open>SetDisplayInterval\<close>

text \<open>
  The second loop,
  \<open>for (size_t i = 0+offset; i < m_axisLabels.size(); i += m_displayInterval)\<close>.
  The counter is a \<open>size_t\<close> and wraps; a run that never leaves the loop is \<open>None\<close>.
\<close>

partial_function (option) SetDisplayInterval_show ::
  "64 word \<Rightarrow> 64 word \<Rightarrow> AxisPoint list \<Rightarrow> AxisPoint list option" where
  "SetDisplayInterval_show displayInterval i labels =
     (if unat i < length labels
      then SetDisplayInterval_show displayInterval (i + displayInterval)
             (labels[unat i := (labels ! unat i)\<lparr>m_show := True\<rparr>])
      else Some labels)"

definition SetDisplayInterval :: "64 word \<Rightarrow> 64 word \<Rightarrow> Axis \<Rightarrow> Axis option" where
  "SetDisplayInterval interval offset a =
     (let a1 = a\<lparr>m_displayInterval := interval\<rparr>;
          hidden = map (\<lambda>p. p\<lparr>m_show := False\<rparr>) (m_axisLabels a1)
      in case SetDisplayInterval_show (m_displayInterval a1) (0 + offset) hidden of
           None \<Rightarrow> None
         | Some labels \<Rightarrow>
             Some (a1\<lparr>m_axisLabels := labels,
                      m_widestLabel := invalid_label, m_tallestLabel := invalid_label\<rparr>))"

subsection \<open>SetPoints: physical coordinates of the axis points\<close>

definition SetLabelPhysicalOffset :: "real \<Rightarrow> Axis \<Rightarrow> Axis" where
  "SetLabelPhysicalOffset offset a = a\<lparr>m_labelSpacingPhysicalOffset := offset\<rparr>"

definition GetLabelPhysicalOffset :: "Axis \<Rightarrow> real" where
  "GetLabelPhysicalOffset a = m_labelSpacingPhysicalOffset a"

text \<open>\<open>GetAxisPointsCount()-1\<close> is computed in \<open>size_t\<close>.\<close>

definition CalcLabelPositions :: "Axis \<Rightarrow> Axis" where
  "CalcLabelPositions a =
     (let divisor = real (unat ((word_of_nat (GetAxisPointsCount a) :: 64 word) - 1))
      in if IsVertical a then
           SetLabelPhysicalOffset
             (safe_divide (real_of_int \<bar>pt_y (GetBottomPoint a) - pt_y (GetTopPoint a)\<bar>) divisor) a
         else if IsHorizontal a then
           SetLabelPhysicalOffset
             (safe_divide (real_of_int \<bar>pt_x (GetRightPoint a) - pt_x (GetLeftPoint a)\<bar>) divisor) a
         else a)"

text \<open>
  \<open>CalcTickMarkPositions\<close> first gives every axis point its physical coordinate and
  then rebuilds the tick-mark list with the loop
  \<open>for (double i = start; i <= end; i += GetTickMarkInterval())\<close> over the stored
  range. The tick-mark list is not part of the model, the return of the loop is: with
  a start that is not above the end and an interval that is not positive, the loop
  never ends.
\<close>

definition tick_loop_returns :: "Axis \<Rightarrow> bool" where
  "tick_loop_returns a = (m_rangeEnd a < m_rangeStart a \<or> 0 < m_tickMarkInterval a)"

definition CalcTickMarkPositions :: "Axis \<Rightarrow> Axis option" where
  "CalcTickMarkPositions a =
     (if IsVertical a then
        (if tick_loop_returns a then
           Some (a\<lparr>m_axisLabels :=
                   map (\<lambda>(i, p). p\<lparr>m_physicalCoordinate :=
                          trunc_int ((real_of_int (pt_y (GetTopPoint a)) +
                                       (real_of_int (pt_y (GetBottomPoint a)) -
                                        real_of_int (pt_y (GetTopPoint a))))
                                     - GetLabelPhysicalOffset a * real i)\<rparr>)
                       (enumerate 0 (m_axisLabels a))\<rparr>)
         else None)
      else if IsHorizontal a then
        (if tick_loop_returns a then
           Some (a\<lparr>m_axisLabels :=
                   map (\<lambda>(i, p). p\<lparr>m_physicalCoordinate :=
                          trunc_int (real_of_int (pt_x (GetLeftPoint a)) +
                                     GetLabelPhysicalOffset a * real i)\<rparr>)
                       (enumerate 0 (m_axisLabels a))\<rparr>)
         else None)
      else Some a)"

subsection \<open>Which points display a label\<close>

text \<open>Labels are shown unless the label display is \<open>NoDisplay\<close>.\<close>

definition GetLabelDisplay :: "Axis \<Rightarrow> AxisLabelDisplay" where
  "GetLabelDisplay a = m_labelDisplay a"

definition IsShowingLabels :: "Axis \<Rightarrow> bool" where
  "IsShowingLabels a = (GetLabelDisplay a \<noteq> NoDisplay)"

definition IsShowingOuterLabels :: "Axis \<Rightarrow> bool" where
  "IsShowingOuterLabels a = m_showOuterLabels a"

definition IsAutoStackingEnabled :: "Axis \<Rightarrow> bool" where
  "IsAutoStackingEnabled a = m_enableAutoStacking a"

definition IsStackingLabels :: "Axis \<Rightarrow> bool" where
  "IsStackingLabels a = m_stackLabelsToFit a"

definition GetCustomLabel :: "Axis \<Rightarrow> real \<Rightarrow> Label" where
  "GetCustomLabel a v =
     (case m_customAxisLabels a v of Some l \<Rightarrow> l | None \<Rightarrow> invalid_label)"

definition IsPointDisplayingLabel :: "Axis \<Rightarrow> AxisPoint \<Rightarrow> bool" where
  "IsPointDisplayingLabel a point =
     (if \<not> m_show point then False
      else
        let customLabel = m_customAxisLabels a (m_value point)
        in if GetLabelDisplay a = DisplayOnlyCustomLabels \<and> customLabel = None then False
           else if customLabel = None \<and> m_displayValue point = [] then False
           else True)"

definition GetDisplayableValue :: "Axis \<Rightarrow> AxisPoint \<Rightarrow> Label" where
  "GetDisplayableValue a pt =
     (if \<not> IsShowingLabels a then blank_label
      else
        let customLabel = GetCustomLabel a (m_value pt)
        in if GetLabelDisplay a = DisplayCustomLabelsAndValues then
             \<lparr>label_text = label_text customLabel @ ''    '' @ m_displayValue pt,
              label_ok = True\<rparr>
           else if GetLabelDisplay a = DisplayOnlyCustomLabels \<or>
                   (label_ok customLabel \<and> length (label_text customLabel) \<noteq> 0)
             then customLabel
           else \<lparr>label_text = m_displayValue pt, label_ok = True\<rparr>)"

text \<open>
  The count of displayed labels, reduced by one when both outer labels hang half
  outside of the plot; \<open>CalcMaxLabelWidth\<close> and \<open>ShouldLabelsBeStackedToFit\<close> compute
  it with the same statements.
\<close>

definition displayedLabelsCount :: "Axis \<Rightarrow> int" where
  "displayedLabelsCount a =
     (let pts = GetAxisPoints a;
          n = int (length (filter (IsPointDisplayingLabel a) pts))
      in if n > 2 \<and> length pts > 2 \<and> IsShowingOuterLabels a \<and>
            m_show (hd pts) \<and> length (label_text (GetDisplayableValue a (hd pts))) \<noteq> 0 \<and>
            m_show (last pts) \<and> length (label_text (GetDisplayableValue a (last pts))) \<noteq> 0
         then n - 1 else n)"

definition axisWidth :: "Axis \<Rightarrow> int" where
  "axisWidth a =
     (if IsVertical a then \<bar>pt_y (GetTopPoint a) - pt_y (GetBottomPoint a)\<bar>
      else \<bar>pt_x (GetBottomPoint a) - pt_x (GetTopPoint a)\<bar>)"

subsection \<open>ShouldLabelsBeStackedToFit\<close>

text \<open>
  The size that the device context measures for the axis label with a given text is
  the parameter \<open>bbox\<close> (width, height). The loop over the points carries the index
  of the point, to recognise the first and the last one.
\<close>

fun stacking_search ::
  "(string \<Rightarrow> int \<times> int) \<Rightarrow> Axis \<Rightarrow> bool \<Rightarrow> int \<Rightarrow> nat \<Rightarrow> nat \<Rightarrow> AxisPoint list \<Rightarrow> bool" where
  "stacking_search bbox a isMeasuringByHeight maxTextSize n i [] = False"
| "stacking_search bbox a isMeasuringByHeight maxTextSize n i (p # ps) =
     (if IsPointDisplayingLabel a p then
        (let labelSize = bbox (label_text (GetDisplayableValue a p));
             axisTextWidth0 = (if isMeasuringByHeight then snd labelSize else fst labelSize);
             axisTextWidth = (if IsShowingOuterLabels a \<and> (i = 0 \<or> Suc i = n)
                              then c_div axisTextWidth0 2 else axisTextWidth0)
         in if axisTextWidth \<ge> maxTextSize then True
            else stacking_search bbox a isMeasuringByHeight maxTextSize n (Suc i) ps)
      else stacking_search bbox a isMeasuringByHeight maxTextSize n (Suc i) ps)"

definition ShouldLabelsBeStackedToFit :: "(string \<Rightarrow> int \<times> int) \<Rightarrow> Axis \<Rightarrow> bool" where
  "ShouldLabelsBeStackedToFit bbox a =
     (if \<not> IsAutoStackingEnabled a then IsStackingLabels a
      else
        let isMeasuringByHeight = (m_labelOrientation a = Perpendicular);
            maxTextSize =
              trunc_int (real_of_int (safe_divide_long (axisWidth a) (displayedLabelsCount a)) -
                         (if isMeasuringByHeight then 2 * m_scaling a else 0))
        in if maxTextSize \<le> 0 then False
           else stacking_search bbox a isMeasuringByHeight maxTextSize
                  (length (GetAxisPoints a)) 0 (GetAxisPoints a))"

subsection \<open>CalcBestScalingToFitLabels\<close>

text \<open>\<open>ScaleToScreenAndCanvas(2)\<close> is the parameter \<open>pad\<close>.\<close>

definition CalcMaxLabelWidth :: "int \<Rightarrow> Axis \<Rightarrow> Axis" where
  "CalcMaxLabelWidth pad a =
     (let w = safe_divide_long (axisWidth a) (displayedLabelsCount a) - pad
      in a\<lparr>m_maxLabelWidth := (if IsStackingLabels a then w * 2 else w),
           m_widestLabel := invalid_label, m_tallestLabel := invalid_label\<rparr>)"

text \<open>
  The search loop: \<open>extent\<close> gives, for a scaling, the width of the widest label (or
  the height of the tallest one) as the device context measures it.
  \<open>while (currentScaling > 1.0 && extent > m_maxLabelWidth) currentScaling -= 0.1\<close>.
\<close>

function scaling_search :: "(real \<Rightarrow> int) \<Rightarrow> int \<Rightarrow> real \<Rightarrow> real" where
  "scaling_search extent maxLabelWidth currentScaling =
     (if currentScaling > 1 \<and> extent currentScaling > maxLabelWidth
      then scaling_search extent maxLabelWidth (currentScaling - 1 / 10)
      else currentScaling)"
  by pat_completeness auto
termination
proof (relation "measure (\<lambda>(extent, maxLabelWidth, s). nat \<lceil>(s - 1) * 10\<rceil>)", goal_cases)
  case 1
  show ?case by simp
next
  case (2 extent maxLabelWidth s)
  then have "0 < (s - 1) * 10" by simp
  then have "0 < \<lceil>(s - 1) * 10\<rceil>" by simp
  moreover have "(s - 1 / 10 - 1) * 10 = (s - 1) * 10 - 1" by (simp add: algebra_simps)
  ultimately show ?case unfolding in_measure case_prod_conv by simp
qed

declare scaling_search.simps [simp del]

definition SetAxisLabelScaling :: "real \<Rightarrow> Axis \<Rightarrow> Axis" where
  "SetAxisLabelScaling s a = a\<lparr>m_axisLabelScaling := s\<rparr>"

text \<open>The result is the returned scaling and the axis as the call leaves it.\<close>

definition CalcBestScalingToFitLabels ::
  "(real \<Rightarrow> int) \<Rightarrow> (real \<Rightarrow> int) \<Rightarrow> int \<Rightarrow> Axis \<Rightarrow> real \<times> Axis" where
  "CalcBestScalingToFitLabels widestWidth tallestHeight pad a =
     (if GetAxisPointsCount a = 0 then (m_scaling a, a)
      else
        let a1 = CalcMaxLabelWidth pad a
        in if m_maxLabelWidth a1 \<le> 0
           then (m_scaling a1, SetAxisLabelScaling (m_scaling a1) a1)
           else
             let currentScaling =
                   (if m_labelOrientation a1 = Parallel
                    then scaling_search widestWidth (m_maxLabelWidth a1) (m_axisLabelScaling a1)
                    else scaling_search tallestHeight (m_maxLabelWidth a1)
                           (m_axisLabelScaling a1))
             in (max 1 currentScaling, SetAxisLabelScaling (max 1 currentScaling) a1))"

text \<open>\<open>SetPoints\<close> orders the two endpoints and recomputes the positions; it returns
  when \<open>CalcTickMarkPositions\<close> does.\<close>

definition SetPoints ::
  "(real \<Rightarrow> int) \<Rightarrow> (real \<Rightarrow> int) \<Rightarrow> int \<Rightarrow> wxPoint \<Rightarrow> wxPoint \<Rightarrow> Axis \<Rightarrow> Axis option" where
  "SetPoints widestWidth tallestHeight pad pt1 pt2 a =
     (let a1 = (if IsVertical a
                then (if pt_y pt1 < pt_y pt2 then a\<lparr>m_points := (pt1, pt2)\<rparr>
                      else a\<lparr>m_points := (pt2, pt1)\<rparr>)
                else (if pt_x pt1 < pt_x pt2 then a\<lparr>m_points := (pt1, pt2)\<rparr>
                      else a\<lparr>m_points := (pt2, pt1)\<rparr>))
      in case CalcTickMarkPositions (CalcLabelPositions a1) of
           None \<Rightarrow> None
         | Some a2 \<Rightarrow> Some (snd (CalcBestScalingToFitLabels widestWidth tallestHeight pad a2)))"

subsection \<open>Axes used as concrete inputs\<close>

definition plain_fmt :: "real \<Rightarrow> 8 word \<Rightarrow> string" where
  "plain_fmt v precision = ''n''"

definition bottom_axis :: Axis where
  "bottom_axis =
     \<lparr>m_type = BottomXAxis, m_axisLabels = [], m_customAxisLabels = Map.empty,
      m_rangeStart = 0, m_rangeEnd = 0, m_displayPrecision = 0, m_interval = 1,
      m_tickMarkInterval = 1, m_displayInterval = 1, m_scaledReserved = False,
      m_startAtZero = False, m_widestLabel = invalid_label, m_tallestLabel = invalid_label,
      m_points = (\<lparr>pt_x = 0, pt_y = 0\<rparr>, \<lparr>pt_x = 0, pt_y = 0\<rparr>),
      m_labelSpacingPhysicalOffset = 0, m_stackLabelsToFit = False,
      m_enableAutoStacking = True, m_labelDisplay = DisplayCustomLabelsOrValues,
      m_labelOrientation = Parallel, m_showOuterLabels = True, m_scaling = 1,
      m_axisLabelScaling = 1, m_maxLabelWidth = 0,
      m_title = blank_label, m_header = blank_label, m_footer = blank_label\<rparr>"

text \<open>Axis points with given values and pixel coordinates, and axes with the points
  0, 1, 2 ten pixels apart: \<open>forward_axis\<close> in ascending order, \<open>reversed_axis\<close>
  reversed.\<close>

definition mk_point :: "real \<Rightarrow> int \<Rightarrow> AxisPoint" where
  "mk_point v c = \<lparr>m_value = v, m_displayValue = ''n'', m_show = True, m_physicalCoordinate = c\<rparr>"

definition forward_axis :: Axis where
  "forward_axis =
     bottom_axis\<lparr>m_axisLabels := [mk_point 0 0, mk_point 1 10, mk_point 2 20],
                 m_rangeStart := 0, m_rangeEnd := 2\<rparr>"

definition reversed_axis :: Axis where
  "reversed_axis =
     bottom_axis\<lparr>m_axisLabels := [mk_point 2 0, mk_point 1 10, mk_point 0 20],
                 m_rangeStart := 2, m_rangeEnd := 0, m_scaledReserved := True\<rparr>"

definition labelled_axis :: Axis where
  "labelled_axis = forward_axis\<lparr>m_customAxisLabels := [5 \<mapsto> \<lparr>label_text = ''Q1'', label_ok = True\<rparr>]\<rparr>"

definition stacking_axis :: Axis where
  "stacking_axis =
     bottom_axis\<lparr>m_axisLabels :=
                   [mk_point 0 0, mk_point 1 22, mk_point 2 44, mk_point 3 66, mk_point 4 88,
                    mk_point 5 111, mk_point 6 133, mk_point 7 155, mk_point 8 177,
                    mk_point 9 200],
                 m_points := (\<lparr>pt_x = 0, pt_y = 0\<rparr>, \<lparr>pt_x = 200, pt_y = 0\<rparr>)\<rparr>"

definition fixed_stacking_axis :: Axis where
  "fixed_stacking_axis = stacking_axis\<lparr>m_enableAutoStacking := False, m_stackLabelsToFit := True\<rparr>"

text \<open>
  The stacking axis with labels perpendicular to the axis, at a scaling of 11 and at a
  scaling of 2, and a device context that measures every label as 30 by 30 pixels.
\<close>

definition perpendicular_axis :: Axis where
  "perpendicular_axis = stacking_axis\<lparr>m_labelOrientation := Perpendicular, m_scaling := 11\<rparr>"

definition perpendicular_fitting_axis :: Axis where
  "perpendicular_fitting_axis =
     stacking_axis\<lparr>m_labelOrientation := Perpendicular, m_scaling := 2\<rparr>"

definition square_label_size :: "string \<Rightarrow> int \<times> int" where
  "square_label_size txt = (30, 30)"

definition cramped_axis :: Axis where
  "cramped_axis =
     the (SetPoints (\<lambda>s. 10) (\<lambda>s. 10) 2 \<lparr>pt_x = 0, pt_y = 0\<rparr> \<lparr>pt_x = 1, pt_y = 0\<rparr> forward_axis)"

definition positioned_axis :: Axis where
  "positioned_axis =
     the (SetPoints (\<lambda>s. 10) (\<lambda>s. 10) 2 \<lparr>pt_x = 0, pt_y = 0\<rparr> \<lparr>pt_x = 100, pt_y = 0\<rparr> forward_axis)"

definition positioned_left_axis :: Axis where
  "positioned_left_axis =
     the (SetPoints (\<lambda>s. 10) (\<lambda>s. 10) 2 \<lparr>pt_x = 0, pt_y = 0\<rparr> \<lparr>pt_x = 0, pt_y = 100\<rparr>
            (forward_axis\<lparr>m_type := LeftYAxis\<rparr>))"

section \<open>Properties\<close>

subsection \<open>Reversal\<close>

lemma GetPhysicalCoordinate_cong:
  "m_axisLabels b = m_axisLabels a \<Longrightarrow> m_scaledReserved b = m_scaledReserved a \<Longrightarrow>
   m_type b = m_type a \<Longrightarrow>
   GetPhysicalCoordinate tol b v = GetPhysicalCoordinate tol a v"
  by (simp add: GetPhysicalCoordinate_def value_position_def GetAxisPointsCount_def
      GetAxisPoints_def IsReversed_def IsHorizontal_def IsVertical_def Let_def)

text \<open>
  C9, as stated, fails on an axis that is already reversed: \<open>ReverseScale(true)\<close> then
  leaves the order alone, and \<open>ReverseScale(false)\<close> reverses the collection and clears
  the flag, so neither the order nor the flag is the original one.
\<close>

theorem ReverseScale_twice_counterexample:
  "\<not> (m_axisLabels (ReverseScale False (ReverseScale True reversed_axis))
        = m_axisLabels reversed_axis \<and>
      IsReversed (ReverseScale False (ReverseScale True reversed_axis))
        = IsReversed reversed_axis)"
  by (simp add: ReverseScale_def IsReversed_def reversed_axis_def bottom_axis_def Let_def)

text \<open>
  C9 (amended): for every axis that is not reversed, \<open>ReverseScale(true)\<close> followed by
  \<open>ReverseScale(false)\<close> restores the order of the AxisPoint collection and the
  reversed flag, and \<open>GetPhysicalCoordinate\<close> gives the same result as before for
  every value.
\<close>

theorem ReverseScale_twice_restores:
  "\<not> IsReversed a \<Longrightarrow>
   m_axisLabels (ReverseScale False (ReverseScale True a)) = m_axisLabels a \<and>
   IsReversed (ReverseScale False (ReverseScale True a)) = IsReversed a \<and>
   GetPhysicalCoordinate tol (ReverseScale False (ReverseScale True a)) v
     = GetPhysicalCoordinate tol a v"
  by (auto simp add: ReverseScale_def IsReversed_def Let_def intro!: GetPhysicalCoordinate_cong)

theorem ReverseScale_twice_restores_witness:
  "\<not> IsReversed forward_axis \<and>
   m_axisLabels (ReverseScale False (ReverseScale True forward_axis))
     = m_axisLabels forward_axis \<and>
   IsReversed (ReverseScale False (ReverseScale True forward_axis)) = IsReversed forward_axis \<and>
   GetPhysicalCoordinate 0 (ReverseScale False (ReverseScale True forward_axis)) 1
     = GetPhysicalCoordinate 0 forward_axis 1"
proof -
  have h: "\<not> IsReversed forward_axis"
    by (simp add: IsReversed_def forward_axis_def bottom_axis_def)
  show ?thesis using h ReverseScale_twice_restores [OF h, of 0 1] by simp
qed

subsection \<open>The loops of SetRange\<close>

declare SetRange_forward.simps [simp del] SetRange_backward.simps [simp del]

lemma SetRange_forward_total:
  "0 < interval \<or> \<not> i < rangeEnd + interval \<Longrightarrow>
   \<exists>r. SetRange_forward fmt pr interval di rangeEnd i cdi ls l = Some r"
proof (induction fmt pr interval di rangeEnd i cdi ls l rule: SetRange_forward.induct)
  case (1 fmt pr interval di rangeEnd i cdi ls l)
  show ?case
  proof (cases "i < rangeEnd + interval")
    case True
    with "1.prems" have pos: "0 < interval" by simp
    with True "1.IH" show ?thesis
      by (subst SetRange_forward.simps) simp
  next
    case False
    then show ?thesis by (subst SetRange_forward.simps) simp
  qed
qed

lemma SetRange_forward_last:
  "SetRange_forward fmt pr interval di rangeEnd i cdi ls l = Some (labels, lastv) \<Longrightarrow>
   (if i < rangeEnd + interval
    then i \<le> lastv \<and> rangeEnd \<le> lastv \<and> labels \<noteq> []
    else labels = ls \<and> lastv = l)"
proof (induction fmt pr interval di rangeEnd i cdi ls l rule: SetRange_forward.induct)
  case (1 fmt pr interval di rangeEnd i cdi ls l)
  show ?case
  proof (cases "i < rangeEnd + interval")
    case True
    note lt = True
    show ?thesis
    proof (cases "interval \<le> 0")
      case True
      with lt "1.prems" show ?thesis by (subst (asm) SetRange_forward.simps) simp
    next
      case False
      with lt "1.prems" have step:
        "SetRange_forward fmt pr interval di rangeEnd (i + interval)
           (if cdi = 1 then di else cdi - 1)
           (ls @ [new_AxisPoint i (fmt i pr) (cdi = 1)]) i = Some (labels, lastv)"
        by (subst (asm) SetRange_forward.simps) simp
      from "1.IH" [OF lt False step] lt False show ?thesis
        by (auto split: if_splits)
    qed
  next
    case False
    with "1.prems" show ?thesis by (subst (asm) SetRange_forward.simps) simp
  qed
qed

lemma SetRange_backward_total:
  "0 < interval \<or> \<not> i > rangeStart - interval \<Longrightarrow>
   \<exists>r. SetRange_backward fmt pr interval di rangeStart i cdi ls l = Some r"
proof (induction fmt pr interval di rangeStart i cdi ls l rule: SetRange_backward.induct)
  case (1 fmt pr interval di rangeStart i cdi ls l)
  show ?case
  proof (cases "i > rangeStart - interval")
    case True
    with "1.prems" have pos: "0 < interval" by simp
    with True "1.IH" show ?thesis
      by (subst SetRange_backward.simps) simp
  next
    case False
    then show ?thesis by (subst SetRange_backward.simps) simp
  qed
qed

lemma SetRange_backward_last:
  "SetRange_backward fmt pr interval di rangeStart i cdi ls l = Some (labels, lastv) \<Longrightarrow>
   (if i > rangeStart - interval
    then lastv \<le> i \<and> lastv \<le> rangeStart \<and> labels \<noteq> []
    else labels = ls \<and> lastv = l)"
proof (induction fmt pr interval di rangeStart i cdi ls l rule: SetRange_backward.induct)
  case (1 fmt pr interval di rangeStart i cdi ls l)
  show ?case
  proof (cases "i > rangeStart - interval")
    case True
    note lt = True
    show ?thesis
    proof (cases "interval \<le> 0")
      case True
      with lt "1.prems" show ?thesis by (subst (asm) SetRange_backward.simps) simp
    next
      case False
      with lt "1.prems" have step:
        "SetRange_backward fmt pr interval di rangeStart (i - interval)
           (if cdi = 1 then di else cdi - 1)
           (ls @ [new_AxisPoint i (fmt i pr) (cdi = 1)]) i = Some (labels, lastv)"
        by (subst (asm) SetRange_backward.simps) simp
      from "1.IH" [OF lt False step] lt False show ?thesis
        by (auto split: if_splits)
    qed
  next
    case False
    with "1.prems" show ?thesis by (subst (asm) SetRange_backward.simps) simp
  qed
qed


lemma SetRange_bounds_cases:
  assumes "\<not> re0 < rs1" and "SetRange_bounds rs1 re0 iv0 = (rs, re, iv)"
  shows "(0 < iv \<and> rs < re \<and> rs \<le> rs1 \<and> re0 \<le> re) \<or>
         (iv < 0 \<and> re0 = rs1 \<and> iv0 < 0 \<and> \<not> rs < re + iv \<and> \<not> re > rs - iv)"
proof (cases "re0 = rs1")
  case True
  show ?thesis
  proof (cases "iv0 < 0")
    case True
    with \<open>re0 = rs1\<close> assms(2) show ?thesis
      by (auto simp add: SetRange_bounds_def Let_def safe_divide_def)
  next
    case False
    with \<open>re0 = rs1\<close> assms(2) show ?thesis
      by (auto simp add: SetRange_bounds_def Let_def safe_divide_def split: if_splits)
  qed
next
  case False
  with assms have lt: "rs1 < re0" by simp
  with assms(2) show ?thesis
    by (auto simp add: SetRange_bounds_def Let_def safe_divide_def split: if_splits)
qed

lemma SetRange_rejected:
  "re0 < clamp_start a rs0 \<Longrightarrow>
   SetRange fmt rs0 re0 pr iv0 di a =
     Some (a\<lparr>m_widestLabel := invalid_label, m_tallestLabel := invalid_label\<rparr>)"
  by (simp add: SetRange_def clamp_start_def IsStartingAtZero_def Let_def)

lemma SetRange_forward_eq:
  assumes acc: "\<not> re0 < clamp_start a rs0" and fw: "\<not> IsReversed a"
    and b: "SetRange_bounds (clamp_start a rs0) re0 iv0 = (rs, re, iv)"
  shows "\<exists>labels lastv.
           SetRange fmt rs0 re0 pr iv0 di a =
             Some (a\<lparr>m_widestLabel := invalid_label, m_tallestLabel := invalid_label,
                      m_displayPrecision := pr, m_interval := iv0, m_tickMarkInterval := iv0,
                      m_displayInterval := di, m_axisLabels := labels, m_rangeStart := rs,
                      m_rangeEnd := lastv\<rparr>) \<and>
           SetRange_forward fmt pr iv di re rs 1 [] rs = Some (labels, lastv) \<and>
           rs \<le> lastv \<and> (0 < iv \<longrightarrow> re \<le> lastv \<and> labels \<noteq> [])"
proof -
  from SetRange_bounds_cases [OF acc b]
  have c: "(0 < iv \<and> rs < re) \<or> (iv < 0 \<and> \<not> rs < re + iv)" by auto
  then have "0 < iv \<or> \<not> rs < re + iv" by auto
  from SetRange_forward_total [OF this]
  obtain labels lastv where loop: "SetRange_forward fmt pr iv di re rs 1 [] rs = Some (labels, lastv)"
    by (metis surj_pair)
  from SetRange_forward_last [OF loop] c
  have p: "rs \<le> lastv \<and> (0 < iv \<longrightarrow> re \<le> lastv \<and> labels \<noteq> [])"
    by (auto split: if_splits)
  have "SetRange fmt rs0 re0 pr iv0 di a =
             Some (a\<lparr>m_widestLabel := invalid_label, m_tallestLabel := invalid_label,
                      m_displayPrecision := pr, m_interval := iv0, m_tickMarkInterval := iv0,
                      m_displayInterval := di, m_axisLabels := labels, m_rangeStart := rs,
                      m_rangeEnd := lastv\<rparr>)"
    using acc fw b loop
    by (simp add: SetRange_def clamp_start_def IsStartingAtZero_def IsReversed_def Let_def)
  with loop p show ?thesis by blast
qed

lemma SetRange_backward_eq:
  assumes acc: "\<not> re0 < clamp_start a rs0" and bw: "IsReversed a"
    and b: "SetRange_bounds (clamp_start a rs0) re0 iv0 = (rs, re, iv)"
  shows "\<exists>labels lastv.
           SetRange fmt rs0 re0 pr iv0 di a =
             Some (a\<lparr>m_widestLabel := invalid_label, m_tallestLabel := invalid_label,
                      m_displayPrecision := pr, m_interval := iv0, m_tickMarkInterval := iv0,
                      m_displayInterval := di, m_axisLabels := labels, m_rangeStart := re,
                      m_rangeEnd := lastv\<rparr>) \<and>
           SetRange_backward fmt pr iv di rs re 1 [] re = Some (labels, lastv) \<and>
           lastv \<le> re \<and> (0 < iv \<longrightarrow> lastv \<le> rs \<and> labels \<noteq> [])"
proof -
  from SetRange_bounds_cases [OF acc b]
  have c: "(0 < iv \<and> rs < re) \<or> (iv < 0 \<and> \<not> re > rs - iv)" by auto
  then have "0 < iv \<or> \<not> re > rs - iv" by auto
  from SetRange_backward_total [OF this]
  obtain labels lastv where loop: "SetRange_backward fmt pr iv di rs re 1 [] re = Some (labels, lastv)"
    by (metis surj_pair)
  from SetRange_backward_last [OF loop] c
  have p: "lastv \<le> re \<and> (0 < iv \<longrightarrow> lastv \<le> rs \<and> labels \<noteq> [])"
    by (auto split: if_splits)
  have "SetRange fmt rs0 re0 pr iv0 di a =
             Some (a\<lparr>m_widestLabel := invalid_label, m_tallestLabel := invalid_label,
                      m_displayPrecision := pr, m_interval := iv0, m_tickMarkInterval := iv0,
                      m_displayInterval := di, m_axisLabels := labels, m_rangeStart := re,
                      m_rangeEnd := lastv\<rparr>)"
    using acc bw b loop
    by (simp add: SetRange_def clamp_start_def IsStartingAtZero_def IsReversed_def Let_def)
  with loop p show ?thesis by blast
qed


text \<open>Unfolding the model on concrete inputs.\<close>

lemmas eval_defs = SetRange_def SetRange_auto_def auto_intervalSize_def SetRange_bounds_def clamp_start_def
  IsStartingAtZero_def IsReversed_def rangeDivisionFactor_def safe_modulus_size_t_def
  safe_divide_size_t_def size_t_of_double_def trunc_int_def safe_divide_def Let_def
  bottom_axis_def forward_axis_def reversed_axis_def ReverseScale_def new_AxisPoint_def
  plain_fmt_def mk_point_def SetRange_forward.simps SetRange_backward.simps

subsection \<open>The stored range\<close>





subsection \<open>A range with equal endpoints\<close>

text \<open>
  With an interval that is not negative, a request with equal endpoints gives the
  three points \<open>start - interval\<close>, \<open>start\<close>, \<open>start + interval\<close> (interval 1 for 0).
\<close>

lemma SetRange_equal_endpoints:
  assumes eq: "rangeEnd = clamp_start a rangeStart" and nn: "0 \<le> interval" and fw: "\<not> IsReversed a"
  shows "\<exists>a'. SetRange fmt rangeStart rangeEnd precision interval displayInterval a = Some a' \<and>
           map m_value (m_axisLabels a') =
             (let iv = (if interval = 0 then 1 else interval)
              in [rangeEnd - iv, rangeEnd, rangeEnd + iv]) \<and>
           m_rangeStart a' = rangeEnd - (if interval = 0 then 1 else interval) \<and>
           m_rangeEnd a' = rangeEnd + (if interval = 0 then 1 else interval)"
proof -
  define iv where "iv = (if interval = 0 then 1 else interval)"
  have pos: "0 < iv" using nn by (simp add: iv_def)
  have b: "SetRange_bounds (clamp_start a rangeStart) rangeEnd interval = (rangeEnd - iv, rangeEnd + iv, iv)"
    using eq nn pos by (auto simp add: SetRange_bounds_def Let_def iv_def)
  have loop: "\<exists>labels. SetRange_forward fmt precision iv displayInterval (rangeEnd + iv)
                 (rangeEnd - iv) 1 [] (rangeEnd - iv) = Some (labels, rangeEnd + iv) \<and>
               map m_value labels = [rangeEnd - iv, rangeEnd, rangeEnd + iv]"
    using pos
    apply (subst SetRange_forward.simps, simp split del: if_split)
    apply (subst SetRange_forward.simps, simp split del: if_split)
    apply (subst SetRange_forward.simps, simp split del: if_split)
    apply (subst SetRange_forward.simps, simp split del: if_split add: new_AxisPoint_def)
    done
  have acc: "\<not> rangeEnd < clamp_start a rangeStart" using eq by simp
  from SetRange_forward_eq [OF acc fw b, of fmt precision displayInterval] loop
  show ?thesis by (auto simp add: Let_def iv_def new_AxisPoint_def)
qed

text \<open>
  C10: the code at the input \<open>SetRange(5, 5, 0, -1, 1)\<close>. The request is not
  rejected, the negative interval is subtracted from the start and added to the end
  before the nonsensical interval is replaced, and the axis is left without any
  AxisPoint, its range collapsed to 6.
\<close>

theorem SetRange_negative_interval_empty:
  "SetRange plain_fmt 5 5 0 (- 1) 1 forward_axis \<noteq> None \<and>
   m_axisLabels (the (SetRange plain_fmt 5 5 0 (- 1) 1 forward_axis)) = [] \<and>
   m_rangeStart (the (SetRange plain_fmt 5 5 0 (- 1) 1 forward_axis)) = 6 \<and>
   m_rangeEnd (the (SetRange plain_fmt 5 5 0 (- 1) 1 forward_axis)) = 6"
  by (simp add: eval_defs)


subsection \<open>What a range change leaves alone\<close>

lemma SetRange_frame:
  "\<exists>a'. SetRange fmt rs0 re0 pr iv0 di a = Some a' \<and>
        m_customAxisLabels a' = m_customAxisLabels a \<and>
        m_widestLabel a' = invalid_label \<and> m_tallestLabel a' = invalid_label"
proof (cases "re0 < clamp_start a rs0")
  case True
  then show ?thesis by (simp add: SetRange_rejected)
next
  case False
  obtain rs re iv where b: "SetRange_bounds (clamp_start a rs0) re0 iv0 = (rs, re, iv)"
    by (metis prod_cases3)
  show ?thesis
  proof (cases "IsReversed a")
    case True
    from SetRange_backward_eq [OF False True b, of fmt pr di]
    show ?thesis by auto
  next
    case fw: False
    from SetRange_forward_eq [OF False fw b, of fmt pr di]
    show ?thesis by auto
  qed
qed

lemma SetRange_rebuilds:
  "\<not> re0 < clamp_start a rs0 \<Longrightarrow>
   map_option m_axisLabels (SetRange fmt rs0 re0 pr iv0 di (a\<lparr>m_axisLabels := xs\<rparr>))
     = map_option m_axisLabels (SetRange fmt rs0 re0 pr iv0 di a)"
  by (simp add: SetRange_def clamp_start_def IsStartingAtZero_def IsReversed_def Let_def
      split: prod.splits option.splits)

text \<open>
  C6: both numeric \<open>SetRange\<close> overloads return and leave the custom-label map
  exactly as it was, while the cached widest and tallest labels are invalidated; an
  accepted request rebuilds the AxisPoint collection (the new collection does not
  depend on the old one). \<open>Reset\<close> empties the custom-label map at the levels
  \<open>RangeAndLabelValues\<close> and \<open>AllSettings\<close> and leaves it alone at every other level.
\<close>

theorem SetRange_keeps_custom_labels:
  "(\<exists>a'. SetRange fmt rangeStart rangeEnd precision interval displayInterval a = Some a' \<and>
         m_customAxisLabels a' = m_customAxisLabels a \<and>
         m_widestLabel a' = invalid_label \<and> m_tallestLabel a' = invalid_label) \<and>
   (\<exists>a'. SetRange_auto fmt rangeStart rangeEnd precision includeExtraInterval a = Some a' \<and>
         m_customAxisLabels a' = m_customAxisLabels a \<and>
         m_widestLabel a' = invalid_label \<and> m_tallestLabel a' = invalid_label) \<and>
   (if rangeEnd < clamp_start a rangeStart then True
    else map_option m_axisLabels
           (SetRange fmt rangeStart rangeEnd precision interval displayInterval
              (a\<lparr>m_axisLabels := anyPoints\<rparr>))
         = map_option m_axisLabels
             (SetRange fmt rangeStart rangeEnd precision interval displayInterval a)) \<and>
   m_customAxisLabels (Reset level a) =
     (if level = RangeAndLabelValues \<or> level = AllSettings then Map.empty
      else m_customAxisLabels a)"
proof -
  have 1: "\<exists>a'. SetRange_auto fmt rangeStart rangeEnd precision includeExtraInterval a = Some a' \<and>
         m_customAxisLabels a' = m_customAxisLabels a \<and>
         m_widestLabel a' = invalid_label \<and> m_tallestLabel a' = invalid_label"
    unfolding SetRange_auto_def Let_def by (rule SetRange_frame)
  have 2: "m_customAxisLabels (Reset level a) =
     (if level = RangeAndLabelValues \<or> level = AllSettings then Map.empty
      else m_customAxisLabels a)"
    by (cases level) (simp_all add: Reset_def Let_def)
  show ?thesis using SetRange_frame 1 2 SetRange_rebuilds by simp
qed


theorem SetRange_keeps_custom_labels_witness:
  "m_customAxisLabels labelled_axis \<noteq> Map.empty \<and>
   (\<exists>a'. SetRange plain_fmt 0 10 0 5 1 labelled_axis = Some a' \<and>
         m_customAxisLabels a' = m_customAxisLabels labelled_axis \<and>
         m_widestLabel a' = invalid_label \<and> m_tallestLabel a' = invalid_label) \<and>
   m_customAxisLabels (Reset Brackets labelled_axis) = m_customAxisLabels labelled_axis \<and>
   m_customAxisLabels (Reset RangeAndLabelValues labelled_axis) = Map.empty"
proof -
  have ne: "m_customAxisLabels labelled_axis \<noteq> Map.empty"
    by (simp add: labelled_axis_def forward_axis_def bottom_axis_def)
  show ?thesis
    using ne SetRange_keeps_custom_labels [of plain_fmt 0 10 0 5 1 labelled_axis False "[]" Brackets]
      SetRange_keeps_custom_labels [of plain_fmt 0 10 0 5 1 labelled_axis False "[]" RangeAndLabelValues]
    by simp
qed

subsection \<open>Termination of the display-interval loop\<close>

text \<open>
  With an interval other than 0 the loop returns (for a collection of fewer than
  \<open>2^63\<close> points): the counter grows past the size, or wraps around and falls.
\<close>

lemma SetDisplayInterval_show_returns:
  assumes d: "d \<noteq> 0" and n: "length labels < 2 ^ 63"
  shows "\<exists>r. SetDisplayInterval_show d i labels = Some r"
  using n
proof (induction "if unat d < 2 ^ 63 then length labels - unat i else unat i"
    arbitrary: i labels rule: less_induct)
  case less
  show ?case
  proof (cases "unat i < length labels")
    case False
    then show ?thesis by (subst SetDisplayInterval_show.simps) simp
  next
    case True
    let ?labels = "labels[unat i := (labels ! unat i)\<lparr>m_show := True\<rparr>]"
    have len: "length ?labels = length labels" by simp
    have step: "SetDisplayInterval_show d i labels = SetDisplayInterval_show d (i + d) ?labels"
      using True by (subst SetDisplayInterval_show.simps) simp
    have dpos: "0 < unat d" using d by (simp add: unat_gt_0)
    have sum: "unat (i + d) = (unat i + unat d) mod 2 ^ 64"
      by (simp add: unat_word_ariths)
    have ilt: "unat i < 2 ^ 63" using True less.prems by simp
    have dlt: "unat d < 2 ^ 64" using unsigned_less [of d] by simp
    show ?thesis
    proof (cases "unat d < 2 ^ 63")
      case small: True
      with ilt have "unat i + unat d < 2 ^ 64" by simp
      with sum have eq: "unat (i + d) = unat i + unat d" by simp
      have "\<exists>r. SetDisplayInterval_show d (i + d) ?labels = Some r"
      proof (rule less.hyps)
        show "(if unat d < 2 ^ 63 then length ?labels - unat (i + d) else unat (i + d))
              < (if unat d < 2 ^ 63 then length labels - unat i else unat i)"
          using small True dpos eq by simp
        show "length ?labels < 2 ^ 63" using less.prems by simp
      qed
      with step show ?thesis by simp
    next
      case big: False
      show ?thesis
      proof (cases "unat i + unat d < 2 ^ 64")
        case nowrap: True
        with sum have eq: "unat (i + d) = unat i + unat d" by simp
        with big less.prems have "\<not> unat (i + d) < length ?labels" by simp
        then have "SetDisplayInterval_show d (i + d) ?labels = Some ?labels"
          by (subst SetDisplayInterval_show.simps) simp
        with step show ?thesis by simp
      next
        case wrap: False
        with ilt dlt have "(unat i + unat d) mod 2 ^ 64 = unat i + unat d - 2 ^ 64"
          by (simp add: mod_if)
        with sum have "unat (i + d) = unat i + unat d - 2 ^ 64" by simp
        with dlt wrap have lt: "unat (i + d) < unat i" by linarith
        have "\<exists>r. SetDisplayInterval_show d (i + d) ?labels = Some r"
        proof (rule less.hyps)
          show "(if unat d < 2 ^ 63 then length ?labels - unat (i + d) else unat (i + d))
                < (if unat d < 2 ^ 63 then length labels - unat i else unat i)"
            using big lt by simp
          show "length ?labels < 2 ^ 63" using less.prems by simp
        qed
        with step show ?thesis by simp
      qed
    qed
  qed
qed

lemma SetDisplayInterval_returns:
  assumes "interval \<noteq> 0" and "length (m_axisLabels a) < 2 ^ 63"
  shows "\<exists>a'. SetDisplayInterval interval offset a = Some a'"
proof -
  from assms have "\<exists>r. SetDisplayInterval_show interval (0 + offset)
                       (map (\<lambda>p. p\<lparr>m_show := False\<rparr>) (m_axisLabels a)) = Some r"
    by (intro SetDisplayInterval_show_returns) simp_all
  then show ?thesis by (auto simp add: SetDisplayInterval_def Let_def)
qed


text \<open>
  The scaling search of \<open>CalcBestScalingToFitLabels\<close> is a total function (its
  definition carries the termination proof); it stops at a scaling that is at most the
  starting one, with the floor 1 reached or the label fitting.
\<close>

lemma scaling_search_result:
  "scaling_search extent maxLabelWidth s \<le> s \<and>
   (scaling_search extent maxLabelWidth s \<le> 1 \<or>
    extent (scaling_search extent maxLabelWidth s) \<le> maxLabelWidth)"
proof (induction extent maxLabelWidth s rule: scaling_search.induct)
  case (1 extent maxLabelWidth s)
  show ?case
  proof (cases "s > 1 \<and> extent s > maxLabelWidth")
    case True
    with "1.IH" show ?thesis by (subst (1 2 3) scaling_search.simps) auto
  next
    case False
    then show ?thesis by (subst (1 2 3) scaling_search.simps) auto
  qed
qed

lemma SetDisplayInterval_show_zero:
  assumes "SetDisplayInterval_show di i labels = Some r"
  shows "di = 0 \<longrightarrow> \<not> unat i < length labels"
proof (rule SetDisplayInterval_show.raw_induct
    [where P = "\<lambda>di i labels r. di = 0 \<longrightarrow> \<not> unat i < length labels", OF _ assms],
    goal_cases)
  case (1 f di i labels r)
  show ?case
  proof (intro impI notI)
    assume z: "di = 0" and lt: "unat i < length labels"
    with 1(2) have "f 0 i (labels[unat i := (labels ! unat i)\<lparr>m_show := True\<rparr>]) = Some r"
      by simp
    from 1(1) [OF this] lt show False by simp
  qed
qed

text \<open>
  C8: the code at the input \<open>SetDisplayInterval(0, 0)\<close> on an axis with at least one
  AxisPoint. The second loop adds the interval 0 to its counter, the counter stays
  below the size of the collection, and the call never returns.
\<close>

theorem SetDisplayInterval_zero_never_returns:
  "m_axisLabels a \<noteq> [] \<Longrightarrow> SetDisplayInterval 0 0 a = None"
proof -
  assume ne: "m_axisLabels a \<noteq> []"
  have "SetDisplayInterval_show 0 0 (map (\<lambda>p. p\<lparr>m_show := False\<rparr>) (m_axisLabels a)) = None"
  proof (cases "SetDisplayInterval_show 0 0 (map (\<lambda>p. p\<lparr>m_show := False\<rparr>) (m_axisLabels a))")
    case None
    then show ?thesis .
  next
    case (Some r)
    from SetDisplayInterval_show_zero [OF this] ne show ?thesis by simp
  qed
  then show ?thesis by (simp add: SetDisplayInterval_def Let_def)
qed


theorem SetDisplayInterval_zero_never_returns_witness: "m_axisLabels forward_axis \<noteq> [] \<and> SetDisplayInterval 0 0 forward_axis = None"
proof -
  have h: "m_axisLabels forward_axis \<noteq> []" by (simp add: forward_axis_def)
  show ?thesis using h SetDisplayInterval_zero_never_returns [OF h] by simp
qed


subsection \<open>The overload that chooses the interval\<close>













subsection \<open>Stacking of labels\<close>

lemma stacking_search_hit:
  assumes "j < length ps" and "IsPointDisplayingLabel a (ps ! j)"
    and "i + j \<noteq> 0" and "Suc (i + j) \<noteq> n"
    and "h \<longrightarrow> maxTextSize \<le> snd (bbox (label_text (GetDisplayableValue a (ps ! j))))"
    and "\<not> h \<longrightarrow> maxTextSize \<le> fst (bbox (label_text (GetDisplayableValue a (ps ! j))))"
  shows "stacking_search bbox a h maxTextSize n i ps"
  using assms
proof (induction ps arbitrary: i j)
  case Nil
  then show ?case by simp
next
  case (Cons p ps)
  show ?case
  proof (cases j)
    case 0
    from Cons.prems show ?thesis unfolding 0 by (simp add: Let_def)
  next
    case (Suc k)
    with Cons.prems have "stacking_search bbox a h maxTextSize n (Suc i) ps"
      by (intro Cons.IH [of k]) simp_all
    then show ?thesis by (simp add: Let_def)
  qed
qed

lemma inner_displayed_point:
  assumes "length (filter P xs) > 2"
  shows "\<exists>j. j < length xs \<and> P (xs ! j) \<and> j \<noteq> 0 \<and> Suc j \<noteq> length xs"
proof (rule ccontr)
  assume "\<not> ?thesis"
  then have "{i. i < length xs \<and> P (xs ! i)} \<subseteq> {0, length xs - 1}" by auto
  then have "card {i. i < length xs \<and> P (xs ! i)} \<le> card {0, length xs - 1}"
    by (intro card_mono) simp_all
  also have "\<dots> \<le> 2" by (simp add: card_insert_if)
  finally show False using assms by (simp add: length_filter_conv_card)
qed

lemmas stacking_defs = stacking_axis_def fixed_stacking_axis_def perpendicular_axis_def
  perpendicular_fitting_axis_def square_label_size_def bottom_axis_def mk_point_def
  IsAutoStackingEnabled_def IsStackingLabels_def axisWidth_def IsVertical_def GetTopPoint_def
  GetBottomPoint_def GetAxisPoints_def IsPointDisplayingLabel_def GetLabelDisplay_def
  GetDisplayableValue_def IsShowingLabels_def GetCustomLabel_def invalid_label_def Let_def

text \<open>
  C7, as stated, fails for labels that are perpendicular to the axis. Their extent
  along the axis is the height of the bounding box, and the code subtracts a padding
  of \<open>2 * GetScaling()\<close> from the per-label budget and returns false when nothing is
  left of it. On the axis of length 200 with 10 displayed labels of 30 by 30 pixels,
  perpendicular labels and a scaling of 11, the budget is 200 / 9 - 22 = 0 and
  \<open>ShouldLabelsBeStackedToFit\<close> returns false although auto-stacking is enabled.
\<close>

theorem ShouldLabelsBeStackedToFit_perpendicular_counterexample:
  "IsAutoStackingEnabled perpendicular_axis \<and> axisWidth perpendicular_axis = 200 \<and>
   length (filter (IsPointDisplayingLabel perpendicular_axis)
             (GetAxisPoints perpendicular_axis)) = 10 \<and>
   map (square_label_size \<circ> label_text \<circ> GetDisplayableValue perpendicular_axis)
       (GetAxisPoints perpendicular_axis) = replicate 10 (30, 30) \<and>
   m_labelOrientation perpendicular_axis = Perpendicular \<and>
   m_scaling perpendicular_axis = 11 \<and>
   \<not> ShouldLabelsBeStackedToFit square_label_size perpendicular_axis"
  by (simp add: stacking_defs ShouldLabelsBeStackedToFit_def displayedLabelsCount_def
      IsShowingOuterLabels_def safe_divide_long_def c_div_def trunc_int_def
      numeral_eq_Suc)

text \<open>
  C7 (amended): on an axis with auto-stacking enabled, of physical length 200, with
  10 displayed labels that each measure 30 pixels along the axis (the width of the
  bounding box for labels that are not perpendicular to the axis, its height for
  perpendicular labels), \<open>ShouldLabelsBeStackedToFit\<close> returns true, provided
  that for perpendicular labels the padding of \<open>2 * GetScaling()\<close>, which the code
  subtracts from the per-label budget, leaves at least one pixel of it (the scaling
  is not negative and twice the scaling is at most 19): the budget is 200 divided by
  10, or by 9 when both outer labels overhang, and a displayed label that is neither
  the first nor the last point measures its full 30 pixels. When the labels are
  perpendicular and twice the scaling is 22 or more, nothing is left of the budget and
  the function returns false. With auto-stacking disabled the function returns the
  stacking setting that the client fixed.
\<close>

theorem ShouldLabelsBeStackedToFit_trigger:
  "(IsAutoStackingEnabled a \<and> axisWidth a = 200 \<and>
    length (filter (IsPointDisplayingLabel a) (GetAxisPoints a)) = 10 \<and>
    (\<forall>p \<in> set (GetAxisPoints a). IsPointDisplayingLabel a p \<longrightarrow>
        (if m_labelOrientation a = Perpendicular
         then snd (bbox (label_text (GetDisplayableValue a p)))
         else fst (bbox (label_text (GetDisplayableValue a p)))) = 30) \<and>
    (m_labelOrientation a = Perpendicular \<longrightarrow> 0 \<le> m_scaling a \<and> 2 * m_scaling a \<le> 19)
    \<longrightarrow> ShouldLabelsBeStackedToFit bbox a) \<and>
   (IsAutoStackingEnabled a \<and> axisWidth a = 200 \<and>
    length (filter (IsPointDisplayingLabel a) (GetAxisPoints a)) = 10 \<and>
    m_labelOrientation a = Perpendicular \<and> 22 \<le> 2 * m_scaling a
    \<longrightarrow> \<not> ShouldLabelsBeStackedToFit bbox a) \<and>
   (\<not> IsAutoStackingEnabled a \<longrightarrow> ShouldLabelsBeStackedToFit bbox a = IsStackingLabels a)"
proof (intro conjI impI)
  assume "\<not> IsAutoStackingEnabled a"
  then show "ShouldLabelsBeStackedToFit bbox a = IsStackingLabels a"
    by (simp add: ShouldLabelsBeStackedToFit_def)
next
  assume h: "IsAutoStackingEnabled a \<and> axisWidth a = 200 \<and>
    length (filter (IsPointDisplayingLabel a) (GetAxisPoints a)) = 10 \<and>
    m_labelOrientation a = Perpendicular \<and> 22 \<le> 2 * m_scaling a"
  from h have cnt: "displayedLabelsCount a = 10 \<or> displayedLabelsCount a = 9"
    by (simp add: displayedLabelsCount_def Let_def)
  define m where "m = safe_divide_long (axisWidth a) (displayedLabelsCount a)"
  from cnt h have m: "m = 20 \<or> m = 22"
    by (auto simp add: m_def safe_divide_long_def c_div_def)
  define x where "x = real_of_int m - 2 * m_scaling a"
  from m h have "x \<le> 0" by (auto simp add: x_def)
  then have "trunc_int x \<le> 0"
    by (cases "x = 0") (simp_all add: trunc_int_def ceiling_le_iff)
  with h show "\<not> ShouldLabelsBeStackedToFit bbox a"
    by (simp add: ShouldLabelsBeStackedToFit_def Let_def x_def m_def)
next
  assume h: "IsAutoStackingEnabled a \<and> axisWidth a = 200 \<and>
    length (filter (IsPointDisplayingLabel a) (GetAxisPoints a)) = 10 \<and>
    (\<forall>p \<in> set (GetAxisPoints a). IsPointDisplayingLabel a p \<longrightarrow>
        (if m_labelOrientation a = Perpendicular
         then snd (bbox (label_text (GetDisplayableValue a p)))
         else fst (bbox (label_text (GetDisplayableValue a p)))) = 30) \<and>
    (m_labelOrientation a = Perpendicular \<longrightarrow> 0 \<le> m_scaling a \<and> 2 * m_scaling a \<le> 19)"
  let ?pts = "GetAxisPoints a"
  let ?byHeight = "m_labelOrientation a = Perpendicular"
  from h have cnt: "displayedLabelsCount a = 10 \<or> displayedLabelsCount a = 9"
    by (simp add: displayedLabelsCount_def Let_def)
  define m where "m = safe_divide_long (axisWidth a) (displayedLabelsCount a)"
  from cnt h have m: "m = 20 \<or> m = 22"
    by (auto simp add: m_def safe_divide_long_def c_div_def)
  define x where "x = real_of_int m - (if ?byHeight then 2 * m_scaling a else 0)"
  from m h have xr: "1 \<le> x" "x \<le> 22" by (auto simp add: x_def)
  then have t: "trunc_int x = \<lfloor>x\<rfloor>" by (simp add: trunc_int_def)
  from xr have lo: "1 \<le> \<lfloor>x\<rfloor>" by (simp add: le_floor_iff)
  from xr have "x < 23" by simp
  then have "\<lfloor>x\<rfloor> < 23" by (simp add: floor_less_iff)
  with lo t have mt: "0 < trunc_int x" "trunc_int x \<le> 30" by simp_all
  from h have "length (filter (IsPointDisplayingLabel a) ?pts) > 2" by simp
  from inner_displayed_point [OF this]
  obtain j where j: "j < length ?pts" "IsPointDisplayingLabel a (?pts ! j)" "j \<noteq> 0"
    "Suc j \<noteq> length ?pts" by blast
  then have "?pts ! j \<in> set ?pts" by simp
  with h j(2) have w: "(if ?byHeight
         then snd (bbox (label_text (GetDisplayableValue a (?pts ! j))))
         else fst (bbox (label_text (GetDisplayableValue a (?pts ! j))))) = 30" by blast
  have "stacking_search bbox a ?byHeight (trunc_int x) (length ?pts) 0 ?pts"
    using j w mt by (intro stacking_search_hit [of j]) (auto split: if_splits)
  with mt h show "ShouldLabelsBeStackedToFit bbox a"
    by (simp add: ShouldLabelsBeStackedToFit_def Let_def x_def m_def)
qed

theorem ShouldLabelsBeStackedToFit_trigger_witness:
  "IsAutoStackingEnabled stacking_axis \<and> m_labelOrientation stacking_axis = Parallel \<and>
   axisWidth stacking_axis = 200 \<and>
   length (filter (IsPointDisplayingLabel stacking_axis) (GetAxisPoints stacking_axis)) = 10 \<and>
   ShouldLabelsBeStackedToFit square_label_size stacking_axis \<and>
   m_labelOrientation perpendicular_fitting_axis = Perpendicular \<and>
   m_scaling perpendicular_fitting_axis = 2 \<and>
   ShouldLabelsBeStackedToFit square_label_size perpendicular_fitting_axis \<and>
   m_labelOrientation perpendicular_axis = Perpendicular \<and>
   (22::real) \<le> 2 * m_scaling perpendicular_axis \<and>
   \<not> ShouldLabelsBeStackedToFit square_label_size perpendicular_axis \<and>
   \<not> IsAutoStackingEnabled fixed_stacking_axis \<and>
   ShouldLabelsBeStackedToFit square_label_size fixed_stacking_axis
     = IsStackingLabels fixed_stacking_axis"
proof -
  have h1: "IsAutoStackingEnabled stacking_axis \<and> axisWidth stacking_axis = 200 \<and>
    length (filter (IsPointDisplayingLabel stacking_axis) (GetAxisPoints stacking_axis)) = 10 \<and>
    (\<forall>p \<in> set (GetAxisPoints stacking_axis). IsPointDisplayingLabel stacking_axis p \<longrightarrow>
        (if m_labelOrientation stacking_axis = Perpendicular
         then snd (square_label_size (label_text (GetDisplayableValue stacking_axis p)))
         else fst (square_label_size (label_text (GetDisplayableValue stacking_axis p)))) = 30) \<and>
    (m_labelOrientation stacking_axis = Perpendicular \<longrightarrow>
       0 \<le> m_scaling stacking_axis \<and> 2 * m_scaling stacking_axis \<le> 19)"
    and h2: "IsAutoStackingEnabled perpendicular_fitting_axis \<and>
    axisWidth perpendicular_fitting_axis = 200 \<and>
    length (filter (IsPointDisplayingLabel perpendicular_fitting_axis)
              (GetAxisPoints perpendicular_fitting_axis)) = 10 \<and>
    (\<forall>p \<in> set (GetAxisPoints perpendicular_fitting_axis).
        IsPointDisplayingLabel perpendicular_fitting_axis p \<longrightarrow>
        (if m_labelOrientation perpendicular_fitting_axis = Perpendicular
         then snd (square_label_size
                     (label_text (GetDisplayableValue perpendicular_fitting_axis p)))
         else fst (square_label_size
                     (label_text (GetDisplayableValue perpendicular_fitting_axis p)))) = 30) \<and>
    (m_labelOrientation perpendicular_fitting_axis = Perpendicular \<longrightarrow>
       0 \<le> m_scaling perpendicular_fitting_axis \<and>
       2 * m_scaling perpendicular_fitting_axis \<le> 19)"
    and h3: "IsAutoStackingEnabled perpendicular_axis \<and> axisWidth perpendicular_axis = 200 \<and>
    length (filter (IsPointDisplayingLabel perpendicular_axis)
              (GetAxisPoints perpendicular_axis)) = 10 \<and>
    m_labelOrientation perpendicular_axis = Perpendicular \<and>
    22 \<le> 2 * m_scaling perpendicular_axis"
    and h4: "\<not> IsAutoStackingEnabled fixed_stacking_axis"
    and h5: "m_labelOrientation stacking_axis = Parallel"
      "m_labelOrientation perpendicular_fitting_axis = Perpendicular"
      "m_scaling perpendicular_fitting_axis = 2"
    by (simp_all add: stacking_defs)
  show ?thesis
    using h1 h2 h3 h4 h5
      ShouldLabelsBeStackedToFit_trigger [of stacking_axis square_label_size]
      ShouldLabelsBeStackedToFit_trigger [of perpendicular_fitting_axis square_label_size]
      ShouldLabelsBeStackedToFit_trigger [of perpendicular_axis square_label_size]
      ShouldLabelsBeStackedToFit_trigger [of fixed_stacking_axis square_label_size]
    by simp
qed

subsection \<open>The search loops of the coordinate mapping\<close>

lemma trunc_int_mono: "x \<le> y \<Longrightarrow> trunc_int x \<le> trunc_int y"
proof -
  assume le: "x \<le> y"
  consider "0 \<le> x" | "x < 0" "0 \<le> y" | "y < 0" by linarith
  then show ?thesis
  proof cases
    case 1
    with le show ?thesis by (simp add: trunc_int_def floor_mono)
  next
    case 2
    then have "\<lceil>x\<rceil> \<le> 0" "0 \<le> \<lfloor>y\<rfloor>" by (simp_all add: ceiling_le_iff)
    then have "\<lceil>x\<rceil> \<le> \<lfloor>y\<rfloor>" by linarith
    with 2 show ?thesis by (simp add: trunc_int_def)
  next
    case 3
    with le show ?thesis by (simp add: trunc_int_def ceiling_mono)
  qed
qed

lemma trunc_int_of_int [simp]: "trunc_int (real_of_int k) = k"
  by (simp add: trunc_int_def)

lemma lower_bound_le: "lower_bound pts v \<le> length pts"
  by (induction pts) simp_all

lemma lower_bound_before: "i < lower_bound pts v \<Longrightarrow> m_value (pts ! i) < v"
proof (induction pts arbitrary: i)
  case Nil
  then show ?case by simp
next
  case (Cons p ps)
  then show ?case by (cases i) (auto simp add: point_less_def split: if_splits)
qed

lemma lower_bound_at: "lower_bound pts v < length pts \<Longrightarrow> v \<le> m_value (pts ! lower_bound pts v)"
  by (induction pts) (auto simp add: point_less_def)

lemma lower_bound_ge:
  "k \<le> length pts \<Longrightarrow> (\<forall>i<k. m_value (pts ! i) < v) \<Longrightarrow> k \<le> lower_bound pts v"
proof (induction pts arbitrary: k)
  case Nil
  then show ?case by simp
next
  case (Cons p ps)
  show ?case
  proof (cases k)
    case 0
    then show ?thesis by simp
  next
    case (Suc j)
    with Cons.prems have "m_value p < v" by auto
    moreover from Suc Cons.prems have "j \<le> lower_bound ps v"
      by (intro Cons.IH) auto
    ultimately show ?thesis using Suc by (simp add: point_less_def)
  qed
qed

lemma lower_bound_eq:
  assumes "k < length pts" and "\<forall>i<k. m_value (pts ! i) < v" and "v \<le> m_value (pts ! k)"
  shows "lower_bound pts v = k"
proof -
  from assms have "k \<le> lower_bound pts v" by (intro lower_bound_ge) auto
  moreover have "\<not> k < lower_bound pts v"
    using lower_bound_before [of k pts v] assms(3) by auto
  ultimately show ?thesis by simp
qed

lemma reversed_search_le: "reversed_search tol pts v \<le> length pts"
  by (induction pts) simp_all

lemma reversed_search_before:
  "i < reversed_search tol pts v \<Longrightarrow>
   v < m_value (pts ! i) \<and> \<not> compare_doubles tol v (m_value (pts ! i))"
proof (induction pts arbitrary: i)
  case Nil
  then show ?case by simp
next
  case (Cons p ps)
  then show ?case by (cases i) (auto split: if_splits)
qed

lemma reversed_search_at:
  "reversed_search tol pts v < length pts \<Longrightarrow>
   m_value (pts ! reversed_search tol pts v) \<le> v \<or>
   compare_doubles tol v (m_value (pts ! reversed_search tol pts v))"
  by (induction pts) auto

lemma reversed_search_eq:
  assumes "k < length pts"
    and "\<forall>i<k. v < m_value (pts ! i) \<and> \<not> compare_doubles tol v (m_value (pts ! i))"
    and "m_value (pts ! k) \<le> v \<or> compare_doubles tol v (m_value (pts ! k))"
  shows "reversed_search tol pts v = k"
  using assms
proof (induction pts arbitrary: k)
  case Nil
  then show ?case by simp
next
  case (Cons p ps)
  show ?case
  proof (cases k)
    case 0
    with Cons.prems show ?thesis by auto
  next
    case (Suc j)
    with Cons.prems have "v < m_value p \<and> \<not> compare_doubles tol v (m_value p)" by auto
    moreover from Suc Cons.prems have "reversed_search tol ps v = j"
      by (intro Cons.IH) auto
    ultimately show ?thesis using Suc by simp
  qed
qed


lemma axis_orientation: "IsHorizontal a \<or> IsVertical a"
  by (cases "m_type a") (simp_all add: IsHorizontal_def IsVertical_def)

lemma coordinate_search_horizontal:
  "IsHorizontal a \<Longrightarrow>
   \<exists>k. coordinate_search a pts c = Some k \<and> k \<le> length pts \<and>
       (\<forall>i<k. m_physicalCoordinate (pts ! i) < c) \<and>
       (k < length pts \<longrightarrow> c \<le> m_physicalCoordinate (pts ! k))"
proof (induction pts)
  case Nil
  then show ?case by simp
next
  case (Cons p ps)
  show ?case
  proof (cases "c \<le> m_physicalCoordinate p")
    case True
    with Cons.prems show ?thesis by simp
  next
    case False
    from Cons obtain k where k: "coordinate_search a ps c = Some k" "k \<le> length ps"
      "\<forall>i<k. m_physicalCoordinate (ps ! i) < c"
      "k < length ps \<longrightarrow> c \<le> m_physicalCoordinate (ps ! k)" by blast
    have "\<forall>i<Suc k. m_physicalCoordinate ((p # ps) ! i) < c"
    proof (intro allI impI)
      fix i assume "i < Suc k"
      then show "m_physicalCoordinate ((p # ps) ! i) < c"
        using False k(3) by (cases i) auto
    qed
    with k False Cons.prems show ?thesis by simp
  qed
qed

lemma coordinate_search_vertical:
  "\<not> IsHorizontal a \<Longrightarrow>
   \<exists>k. coordinate_search a pts c = Some k \<and> k \<le> length pts \<and>
       (\<forall>i<k. c < m_physicalCoordinate (pts ! i)) \<and>
       (k < length pts \<longrightarrow> m_physicalCoordinate (pts ! k) \<le> c)"
proof (induction pts)
  case Nil
  then show ?case by simp
next
  case (Cons p ps)
  from Cons.prems axis_orientation [of a] have v: "IsVertical a" by simp
  show ?case
  proof (cases "m_physicalCoordinate p \<le> c")
    case True
    with Cons.prems v show ?thesis by simp
  next
    case False
    from Cons obtain k where k: "coordinate_search a ps c = Some k" "k \<le> length ps"
      "\<forall>i<k. c < m_physicalCoordinate (ps ! i)"
      "k < length ps \<longrightarrow> m_physicalCoordinate (ps ! k) \<le> c" by blast
    have "\<forall>i<Suc k. c < m_physicalCoordinate ((p # ps) ! i)"
    proof (intro allI impI)
      fix i assume "i < Suc k"
      then show "c < m_physicalCoordinate ((p # ps) ! i)"
        using False k(3) by (cases i) auto
    qed
    with k False Cons.prems v show ?thesis by simp
  qed
qed

lemma coordinate_search_horizontal_eq:
  assumes "IsHorizontal a" and "k < length pts"
    and "\<forall>i<k. m_physicalCoordinate (pts ! i) < c" and "c \<le> m_physicalCoordinate (pts ! k)"
  shows "coordinate_search a pts c = Some k"
proof -
  from coordinate_search_horizontal [OF assms(1), of pts c]
  obtain j where j: "coordinate_search a pts c = Some j" "j \<le> length pts"
    "\<forall>i<j. m_physicalCoordinate (pts ! i) < c"
    "j < length pts \<longrightarrow> c \<le> m_physicalCoordinate (pts ! j)" by blast
  have "\<not> j < k" using j(4) assms(2,3) by force
  moreover have "\<not> k < j" using j(3) assms(4) by force
  ultimately show ?thesis using j(1) by simp
qed

lemma coordinate_search_vertical_eq:
  assumes "\<not> IsHorizontal a" and "k < length pts"
    and "\<forall>i<k. c < m_physicalCoordinate (pts ! i)" and "m_physicalCoordinate (pts ! k) \<le> c"
  shows "coordinate_search a pts c = Some k"
proof -
  from coordinate_search_vertical [OF assms(1), of pts c]
  obtain j where j: "coordinate_search a pts c = Some j" "j \<le> length pts"
    "\<forall>i<j. c < m_physicalCoordinate (pts ! i)"
    "j < length pts \<longrightarrow> m_physicalCoordinate (pts ! j) \<le> c" by blast
  have "\<not> j < k" using j(4) assms(2,3) by force
  moreover have "\<not> k < j" using j(3) assms(4) by force
  ultimately show ?thesis using j(1) by simp
qed

lemma GetAxisPointsCount_eq: "GetAxisPointsCount a = length (GetAxisPoints a)"
  by (simp add: GetAxisPointsCount_def GetAxisPoints_def)

lemma GetPhysicalCoordinate_hit:
  assumes "k < length (GetAxisPoints a)" and "value_position tol a v = k"
    and "point_eq tol (GetAxisPoints a ! k) v"
  shows "GetPhysicalCoordinate tol a v = (True, m_physicalCoordinate (GetAxisPoints a ! k))"
  using assms
  by (auto simp add: GetPhysicalCoordinate_def GetAxisPointsCount_eq Let_def)

lemma GetValueFromPhysicalCoordinate_hit:
  assumes "k < length (GetAxisPoints a)"
    and "coordinate_search a (GetAxisPoints a) c = Some k"
    and "c = m_physicalCoordinate (GetAxisPoints a ! k)"
  shows "GetValueFromPhysicalCoordinate a c = (True, m_value (GetAxisPoints a ! k))"
  using assms
  by (auto simp add: GetValueFromPhysicalCoordinate_def GetAxisPointsCount_eq Let_def)


lemma GetPhysicalCoordinate_miss_end:
  assumes "value_position tol a v = length (GetAxisPoints a)"
  shows "GetPhysicalCoordinate tol a v = (False, - 1)"
  using assms
  by (auto simp add: GetPhysicalCoordinate_def GetAxisPointsCount_eq Let_def)

lemma GetPhysicalCoordinate_miss_begin:
  assumes "value_position tol a v = 0" and "GetAxisPoints a = [] \<or> \<not> point_eq tol (GetAxisPoints a ! 0) v"
  shows "GetPhysicalCoordinate tol a v = (False, - 1)"
  using assms
  by (auto simp add: GetPhysicalCoordinate_def GetAxisPointsCount_eq Let_def)

lemma GetValueFromPhysicalCoordinate_miss_end:
  assumes "coordinate_search a (GetAxisPoints a) c = Some (length (GetAxisPoints a))"
  shows "GetValueFromPhysicalCoordinate a c = (False, - 1)"
  using assms
  by (auto simp add: GetValueFromPhysicalCoordinate_def GetAxisPointsCount_eq Let_def)

lemma GetValueFromPhysicalCoordinate_miss_begin:
  assumes "coordinate_search a (GetAxisPoints a) c = Some 0"
    and "GetAxisPoints a = [] \<or> c \<noteq> m_physicalCoordinate (GetAxisPoints a ! 0)"
  shows "GetValueFromPhysicalCoordinate a c = (False, - 1)"
  using assms
  by (auto simp add: GetValueFromPhysicalCoordinate_def GetAxisPointsCount_eq Let_def)

lemma value_position_above:
  assumes "0 \<le> tol" and "\<forall>p\<in>set (GetAxisPoints a). m_value p + tol < v"
  shows "GetPhysicalCoordinate tol a v = (False, - 1)"
proof (cases "IsReversed a")
  case True
  show ?thesis
  proof (cases "GetAxisPoints a")
    case Nil
    then show ?thesis by (simp add: GetPhysicalCoordinate_def GetAxisPointsCount_eq)
  next
    case (Cons p ps)
    with assms have "m_value p + tol < v" by simp
    with assms(1) Cons True have "value_position tol a v = 0"
      and "\<not> point_eq tol (GetAxisPoints a ! 0) v"
      by (simp_all add: value_position_def point_eq_def compare_doubles_def)
    then show ?thesis by (intro GetPhysicalCoordinate_miss_begin) simp_all
  qed
next
  case False
  have "\<forall>i<length (GetAxisPoints a). m_value (GetAxisPoints a ! i) < v"
  proof (intro allI impI)
    fix i assume "i < length (GetAxisPoints a)"
    then have "GetAxisPoints a ! i \<in> set (GetAxisPoints a)" by simp
    with assms show "m_value (GetAxisPoints a ! i) < v" by force
  qed
  then have "length (GetAxisPoints a) \<le> lower_bound (GetAxisPoints a) v"
    by (intro lower_bound_ge) simp_all
  with lower_bound_le [of "GetAxisPoints a" v] False
  have "value_position tol a v = length (GetAxisPoints a)"
    by (simp add: value_position_def)
  then show ?thesis by (rule GetPhysicalCoordinate_miss_end)
qed

lemma value_position_below:
  assumes "0 \<le> tol" and "\<forall>p\<in>set (GetAxisPoints a). v < m_value p - tol"
  shows "GetPhysicalCoordinate tol a v = (False, - 1)"
proof (cases "IsReversed a")
  case False
  show ?thesis
  proof (cases "GetAxisPoints a")
    case Nil
    then show ?thesis by (simp add: GetPhysicalCoordinate_def GetAxisPointsCount_eq)
  next
    case (Cons p ps)
    with assms have "v < m_value p - tol" by simp
    with assms(1) Cons False have "value_position tol a v = 0"
      and "\<not> point_eq tol (GetAxisPoints a ! 0) v"
      by (simp_all add: value_position_def point_eq_def point_less_def compare_doubles_def)
    then show ?thesis by (intro GetPhysicalCoordinate_miss_begin) simp_all
  qed
next
  case True
  have "reversed_search tol (GetAxisPoints a) v = length (GetAxisPoints a)"
  proof -
    have "\<And>ps. \<forall>p\<in>set ps. v < m_value p - tol \<Longrightarrow> reversed_search tol ps v = length ps"
    proof -
      fix ps show "\<forall>p\<in>set ps. v < m_value p - tol \<Longrightarrow> reversed_search tol ps v = length ps"
        using assms(1) by (induction ps) (auto simp add: compare_doubles_def)
    qed
    with assms(2) show ?thesis by simp
  qed
  with True have "value_position tol a v = length (GetAxisPoints a)"
    by (simp add: value_position_def)
  then show ?thesis by (rule GetPhysicalCoordinate_miss_end)
qed


lemma pixel_above:
  assumes "\<forall>p\<in>set (GetAxisPoints a). m_physicalCoordinate p < c"
  shows "GetValueFromPhysicalCoordinate a c = (False, - 1)"
proof (cases "IsHorizontal a")
  case True
  from coordinate_search_horizontal [OF True, of "GetAxisPoints a" c]
  obtain k where k: "coordinate_search a (GetAxisPoints a) c = Some k" "k \<le> length (GetAxisPoints a)"
    "k < length (GetAxisPoints a) \<longrightarrow> c \<le> m_physicalCoordinate (GetAxisPoints a ! k)" by blast
  have "\<not> k < length (GetAxisPoints a)"
  proof
    assume lt: "k < length (GetAxisPoints a)"
    then have "GetAxisPoints a ! k \<in> set (GetAxisPoints a)" by simp
    with assms have "m_physicalCoordinate (GetAxisPoints a ! k) < c" by blast
    with k(3) lt show False by simp
  qed
  with k have "coordinate_search a (GetAxisPoints a) c = Some (length (GetAxisPoints a))" by simp
  then show ?thesis by (rule GetValueFromPhysicalCoordinate_miss_end)
next
  case False
  show ?thesis
  proof (cases "GetAxisPoints a")
    case Nil
    then show ?thesis by (simp add: GetValueFromPhysicalCoordinate_def GetAxisPointsCount_eq)
  next
    case (Cons p ps)
    with assms have lt: "m_physicalCoordinate p < c" by simp
    from False axis_orientation [of a] have "IsVertical a" by simp
    with False Cons lt have "coordinate_search a (GetAxisPoints a) c = Some 0"
      and "c \<noteq> m_physicalCoordinate (GetAxisPoints a ! 0)" by simp_all
    then show ?thesis by (intro GetValueFromPhysicalCoordinate_miss_begin) simp_all
  qed
qed

lemma pixel_below:
  assumes "\<forall>p\<in>set (GetAxisPoints a). c < m_physicalCoordinate p"
  shows "GetValueFromPhysicalCoordinate a c = (False, - 1)"
proof (cases "IsHorizontal a")
  case False
  from coordinate_search_vertical [OF False, of "GetAxisPoints a" c]
  obtain k where k: "coordinate_search a (GetAxisPoints a) c = Some k" "k \<le> length (GetAxisPoints a)"
    "k < length (GetAxisPoints a) \<longrightarrow> m_physicalCoordinate (GetAxisPoints a ! k) \<le> c" by blast
  have "\<not> k < length (GetAxisPoints a)"
  proof
    assume lt: "k < length (GetAxisPoints a)"
    then have "GetAxisPoints a ! k \<in> set (GetAxisPoints a)" by simp
    with assms have "c < m_physicalCoordinate (GetAxisPoints a ! k)" by blast
    with k(3) lt show False by simp
  qed
  with k have "coordinate_search a (GetAxisPoints a) c = Some (length (GetAxisPoints a))" by simp
  then show ?thesis by (rule GetValueFromPhysicalCoordinate_miss_end)
next
  case True
  show ?thesis
  proof (cases "GetAxisPoints a")
    case Nil
    then show ?thesis by (simp add: GetValueFromPhysicalCoordinate_def GetAxisPointsCount_eq)
  next
    case (Cons p ps)
    with assms have lt: "c < m_physicalCoordinate p" by simp
    with True Cons have "coordinate_search a (GetAxisPoints a) c = Some 0"
      and "c \<noteq> m_physicalCoordinate (GetAxisPoints a ! 0)" by simp_all
    then show ?thesis by (intro GetValueFromPhysicalCoordinate_miss_begin) simp_all
  qed
qed

lemma between_real:
  fixes x y t :: real
  assumes "0 \<le> t" and "t \<le> 1"
  shows "min x y \<le> x + (y - x) * t \<and> x + (y - x) * t \<le> max x y"
proof (cases "x \<le> y")
  case True
  then have "0 \<le> (y - x) * t" "(y - x) * t \<le> y - x"
    using assms by (simp_all add: mult_left_le)
  with True show ?thesis by simp
next
  case False
  then have "0 \<le> (x - y) * t" "(x - y) * t \<le> x - y"
    using assms by (simp_all add: mult_left_le)
  then have a: "(y - x) * t \<le> 0" and b: "y - x \<le> (y - x) * t" by (simp_all add: algebra_simps)
  from False have m: "min x y = y" "max x y = x" by simp_all
  show ?thesis unfolding m using a b by linarith
qed

lemma trunc_between:
  assumes "0 \<le> t" and "t \<le> 1"
  shows "min a b \<le> trunc_int (real_of_int a + real_of_int (b - a) * t) \<and>
         trunc_int (real_of_int a + real_of_int (b - a) * t) \<le> max a b"
proof -
  from between_real [OF assms, of "real_of_int a" "real_of_int b"]
  have 1: "real_of_int (min a b) \<le> real_of_int a + real_of_int (b - a) * t"
    and 2: "real_of_int a + real_of_int (b - a) * t \<le> real_of_int (max a b)"
    by (simp_all add: min_def max_def split: if_splits)
  from trunc_int_mono [OF 1] trunc_int_mono [OF 2] show ?thesis by simp
qed


lemma value_position_le: "value_position tol a v \<le> length (GetAxisPoints a)"
  by (simp add: value_position_def lower_bound_le reversed_search_le)

lemma compare_doubles_sym: "compare_doubles tol x y = compare_doubles tol y x"
  by (auto simp add: compare_doubles_def)

text \<open>the interpolation fraction stays in the unit interval\<close>

lemma percentage_range:
  assumes k: "value_position tol a v < length (GetAxisPoints a)" "0 < value_position tol a v"
    and ne: "\<not> point_eq tol (GetAxisPoints a ! value_position tol a v) v"
  shows "0 \<le> safe_divide (v - m_value (GetAxisPoints a ! (value_position tol a v - 1)))
                 (m_value (GetAxisPoints a ! value_position tol a v) -
                  m_value (GetAxisPoints a ! (value_position tol a v - 1))) \<and>
         safe_divide (v - m_value (GetAxisPoints a ! (value_position tol a v - 1)))
                 (m_value (GetAxisPoints a ! value_position tol a v) -
                  m_value (GetAxisPoints a ! (value_position tol a v - 1))) \<le> 1"
proof (cases "IsReversed a")
  case False
  let ?pts = "GetAxisPoints a"
  let ?k = "lower_bound ?pts v"
  from False have kp: "value_position tol a v = ?k" by (simp add: value_position_def)
  from k kp have "?k - 1 < ?k" by simp
  from lower_bound_before [OF this] have lo: "m_value (?pts ! (?k - 1)) < v" .
  from k kp lower_bound_at [of ?pts v] have hi: "v \<le> m_value (?pts ! ?k)" by simp
  from lo hi show ?thesis unfolding kp by (simp add: safe_divide_def)
next
  case True
  let ?pts = "GetAxisPoints a"
  let ?k = "reversed_search tol ?pts v"
  from True have kp: "value_position tol a v = ?k" by (simp add: value_position_def)
  from k kp have "?k - 1 < ?k" by simp
  from reversed_search_before [OF this] have lo: "v < m_value (?pts ! (?k - 1))" by simp
  from k kp reversed_search_at [of tol ?pts v] ne
  have hi: "m_value (?pts ! ?k) \<le> v"
    by (auto simp add: point_eq_def compare_doubles_sym)
  from lo hi have "0 \<le> (m_value (?pts ! (?k - 1)) - v) / (m_value (?pts ! (?k - 1)) - m_value (?pts ! ?k))"
    and "(m_value (?pts ! (?k - 1)) - v) / (m_value (?pts ! (?k - 1)) - m_value (?pts ! ?k)) \<le> 1"
    by simp_all
  moreover have "(v - m_value (?pts ! (?k - 1))) / (m_value (?pts ! ?k) - m_value (?pts ! (?k - 1)))
    = (m_value (?pts ! (?k - 1)) - v) / (m_value (?pts ! (?k - 1)) - m_value (?pts ! ?k))"
    by (metis minus_diff_eq minus_divide_divide)
  ultimately show ?thesis unfolding kp using lo hi by (simp add: safe_divide_def)
qed

lemma GetPhysicalCoordinate_success:
  assumes "GetPhysicalCoordinate tol a v = (True, r)"
  shows "value_position tol a v < length (GetAxisPoints a) \<and>
    (if point_eq tol (GetAxisPoints a ! value_position tol a v) v
     then r = m_physicalCoordinate (GetAxisPoints a ! value_position tol a v)
     else 0 < value_position tol a v \<and>
          r = trunc_int
                (real_of_int (m_physicalCoordinate (GetAxisPoints a ! (value_position tol a v - 1))) +
                 real_of_int (m_physicalCoordinate (GetAxisPoints a ! value_position tol a v) -
                              m_physicalCoordinate (GetAxisPoints a ! (value_position tol a v - 1))) *
                 safe_divide (v - m_value (GetAxisPoints a ! (value_position tol a v - 1)))
                   (m_value (GetAxisPoints a ! value_position tol a v) -
                    m_value (GetAxisPoints a ! (value_position tol a v - 1)))))"
proof -
  have alg: "\<And>(x::real) y t. x - (x - y) * t = x + (y - x) * t" by (simp add: algebra_simps)
  from assms value_position_le [of tol a v] show ?thesis
    by (auto simp add: GetPhysicalCoordinate_def GetAxisPointsCount_eq Let_def alg
        split: if_splits)
qed

lemma GetPhysicalCoordinate_within:
  assumes "GetPhysicalCoordinate tol a v = (True, r)"
  shows "\<exists>p\<in>set (GetAxisPoints a). \<exists>q\<in>set (GetAxisPoints a).
           min (m_physicalCoordinate p) (m_physicalCoordinate q) \<le> r \<and>
           r \<le> max (m_physicalCoordinate p) (m_physicalCoordinate q)"
proof -
  let ?pts = "GetAxisPoints a"
  let ?k = "value_position tol a v"
  from GetPhysicalCoordinate_success [OF assms] have k: "?k < length ?pts" by simp
  then have mem: "?pts ! ?k \<in> set ?pts" by simp
  show ?thesis
  proof (cases "point_eq tol (?pts ! ?k) v")
    case True
    with GetPhysicalCoordinate_success [OF assms] have "r = m_physicalCoordinate (?pts ! ?k)" by simp
    with mem show ?thesis by (intro bexI [of _ "?pts ! ?k"]) simp_all
  next
    case False
    with GetPhysicalCoordinate_success [OF assms] have pos: "0 < ?k"
      and r: "r = trunc_int
                (real_of_int (m_physicalCoordinate (?pts ! (?k - 1))) +
                 real_of_int (m_physicalCoordinate (?pts ! ?k) - m_physicalCoordinate (?pts ! (?k - 1))) *
                 safe_divide (v - m_value (?pts ! (?k - 1)))
                   (m_value (?pts ! ?k) - m_value (?pts ! (?k - 1))))" by simp_all
    from percentage_range [OF k pos False] have t: "0 \<le> safe_divide (v - m_value (?pts ! (?k - 1)))
                   (m_value (?pts ! ?k) - m_value (?pts ! (?k - 1)))" "safe_divide (v - m_value (?pts ! (?k - 1)))
                   (m_value (?pts ! ?k) - m_value (?pts ! (?k - 1))) \<le> 1" by simp_all
    from k pos have mem': "?pts ! (?k - 1) \<in> set ?pts" by simp
    from trunc_between [OF t] r mem mem' show ?thesis by blast
  qed
qed


lemma GetValueFromPhysicalCoordinate_within:
  assumes ok: "GetValueFromPhysicalCoordinate a c = (True, x)"
  shows "\<exists>p\<in>set (GetAxisPoints a). \<exists>q\<in>set (GetAxisPoints a).
           min (m_value p) (m_value q) \<le> x \<and> x \<le> max (m_value p) (m_value q)"
proof -
  let ?pts = "GetAxisPoints a"
  have alg: "\<And>(x::real) y t. x - (x - y) * t = x + (y - x) * t" by (simp add: algebra_simps)
  obtain k where k: "coordinate_search a ?pts c = Some k" "k \<le> length ?pts"
      and range: "0 < k \<longrightarrow> k < length ?pts \<longrightarrow> c \<noteq> m_physicalCoordinate (?pts ! k) \<longrightarrow>
         0 \<le> safe_divide (real_of_int c - real_of_int (m_physicalCoordinate (?pts ! (k - 1))))
                (real_of_int (m_physicalCoordinate (?pts ! k)) -
                 real_of_int (m_physicalCoordinate (?pts ! (k - 1)))) \<and>
         safe_divide (real_of_int c - real_of_int (m_physicalCoordinate (?pts ! (k - 1))))
                (real_of_int (m_physicalCoordinate (?pts ! k)) -
                 real_of_int (m_physicalCoordinate (?pts ! (k - 1)))) \<le> 1"
  proof (cases "IsHorizontal a")
    case True
    from coordinate_search_horizontal [OF True, of ?pts c]
    obtain k where k: "coordinate_search a ?pts c = Some k" "k \<le> length ?pts"
      "\<forall>i<k. m_physicalCoordinate (?pts ! i) < c"
      "k < length ?pts \<longrightarrow> c \<le> m_physicalCoordinate (?pts ! k)" by blast
    have "0 \<le> safe_divide (real_of_int c - real_of_int (m_physicalCoordinate (?pts ! (k - 1))))
                (real_of_int (m_physicalCoordinate (?pts ! k)) -
                 real_of_int (m_physicalCoordinate (?pts ! (k - 1)))) \<and>
         safe_divide (real_of_int c - real_of_int (m_physicalCoordinate (?pts ! (k - 1))))
                (real_of_int (m_physicalCoordinate (?pts ! k)) -
                 real_of_int (m_physicalCoordinate (?pts ! (k - 1)))) \<le> 1"
      if "0 < k" "k < length ?pts"
    proof -
      from that k(3) have "m_physicalCoordinate (?pts ! (k - 1)) < c" by simp
      moreover from that k(4) have "c \<le> m_physicalCoordinate (?pts ! k)" by simp
      ultimately show ?thesis by (simp add: safe_divide_def)
    qed
    with k(1,2) that show ?thesis by blast
  next
    case False
    from coordinate_search_vertical [OF False, of ?pts c]
    obtain k where k: "coordinate_search a ?pts c = Some k" "k \<le> length ?pts"
      "\<forall>i<k. c < m_physicalCoordinate (?pts ! i)"
      "k < length ?pts \<longrightarrow> m_physicalCoordinate (?pts ! k) \<le> c" by blast
    have "0 \<le> safe_divide (real_of_int c - real_of_int (m_physicalCoordinate (?pts ! (k - 1))))
                (real_of_int (m_physicalCoordinate (?pts ! k)) -
                 real_of_int (m_physicalCoordinate (?pts ! (k - 1)))) \<and>
         safe_divide (real_of_int c - real_of_int (m_physicalCoordinate (?pts ! (k - 1))))
                (real_of_int (m_physicalCoordinate (?pts ! k)) -
                 real_of_int (m_physicalCoordinate (?pts ! (k - 1)))) \<le> 1"
      if "0 < k" "k < length ?pts"
    proof -
      let ?lo = "real_of_int (m_physicalCoordinate (?pts ! (k - 1)))"
      let ?hi = "real_of_int (m_physicalCoordinate (?pts ! k))"
      from that k(3) have lo: "real_of_int c < ?lo" by simp
      from that k(4) have hi: "?hi \<le> real_of_int c" by simp
      from lo hi have "0 \<le> (?lo - real_of_int c) / (?lo - ?hi)"
        and "(?lo - real_of_int c) / (?lo - ?hi) \<le> 1" by simp_all
      moreover have "(real_of_int c - ?lo) / (?hi - ?lo) = (?lo - real_of_int c) / (?lo - ?hi)"
        by (metis minus_diff_eq minus_divide_divide)
      ultimately show ?thesis using lo hi by (simp add: safe_divide_def)
    qed
    with k(1,2) that show ?thesis by blast
  qed
  from ok k have lt: "k < length ?pts"
    by (auto simp add: GetValueFromPhysicalCoordinate_def GetAxisPointsCount_eq Let_def
        split: if_splits)
  then have mem: "?pts ! k \<in> set ?pts" by simp
  show ?thesis
  proof (cases "c = m_physicalCoordinate (?pts ! k)")
    case True
    with ok k lt have "x = m_value (?pts ! k)"
      by (auto simp add: GetValueFromPhysicalCoordinate_def GetAxisPointsCount_eq Let_def
        split: if_splits)
    with mem show ?thesis by (intro bexI [of _ "?pts ! k"]) simp_all
  next
    case False
    with ok k lt have pos: "0 < k"
      and x: "x = m_value (?pts ! (k - 1)) + (m_value (?pts ! k) - m_value (?pts ! (k - 1))) *
            safe_divide (real_of_int c - real_of_int (m_physicalCoordinate (?pts ! (k - 1))))
                (real_of_int (m_physicalCoordinate (?pts ! k)) -
                 real_of_int (m_physicalCoordinate (?pts ! (k - 1))))"
      by (auto simp add: GetValueFromPhysicalCoordinate_def GetAxisPointsCount_eq Let_def alg
        split: if_splits)
    from range pos lt False have t: "0 \<le> safe_divide (real_of_int c - real_of_int (m_physicalCoordinate (?pts ! (k - 1))))
                (real_of_int (m_physicalCoordinate (?pts ! k)) -
                 real_of_int (m_physicalCoordinate (?pts ! (k - 1))))"
       "safe_divide (real_of_int c - real_of_int (m_physicalCoordinate (?pts ! (k - 1))))
                (real_of_int (m_physicalCoordinate (?pts ! k)) -
                 real_of_int (m_physicalCoordinate (?pts ! (k - 1)))) \<le> 1" by simp_all
    from lt pos have mem': "?pts ! (k - 1) \<in> set ?pts" by simp
    from between_real [OF t, of "m_value (?pts ! (k - 1))" "m_value (?pts ! k)"] x mem mem'
    show ?thesis by blast
  qed
qed


subsection \<open>Values and pixels outside of the axis\<close>

text \<open>Every tolerance between 0 and 1 accepts a value below the lowest point.\<close>

lemma tolerance_accepts_outside:
  "0 < tol \<Longrightarrow> tol < 1 \<Longrightarrow>
   GetPhysicalCoordinate tol reversed_axis (- tol / 2) = (True, 20)"
  by (simp add: GetPhysicalCoordinate_def value_position_def GetAxisPointsCount_eq
      GetAxisPoints_def IsReversed_def reversed_axis_def bottom_axis_def mk_point_def
      point_eq_def compare_doubles_def Let_def)

text \<open>On an axis that is not reversed, \<open>std::lower_bound\<close> runs past the end for a
  value above every point, whatever the tolerance.\<close>

lemma value_above_not_reversed:
  assumes "\<not> IsReversed a" and "\<forall>p\<in>set (GetAxisPoints a). m_value p < v"
  shows "GetPhysicalCoordinate tol a v = (False, - 1)"
proof -
  have "\<forall>i<length (GetAxisPoints a). m_value (GetAxisPoints a ! i) < v"
    using assms(2) by simp
  then have "length (GetAxisPoints a) \<le> lower_bound (GetAxisPoints a) v"
    by (intro lower_bound_ge) simp_all
  with lower_bound_le [of "GetAxisPoints a" v] assms(1)
  have "value_position tol a v = length (GetAxisPoints a)"
    by (simp add: value_position_def)
  then show ?thesis by (rule GetPhysicalCoordinate_miss_end)
qed

text \<open>A value outside of the span of the points is never interpolated: when it is
  accepted, the search stopped at a point that equals it up to the tolerance.\<close>

lemma value_outside_accepted:
  assumes out: "(\<forall>p\<in>set (GetAxisPoints a). v < m_value p) \<or>
                (\<forall>p\<in>set (GetAxisPoints a). m_value p < v)"
    and ok: "GetPhysicalCoordinate tol a v = (True, r)"
  shows "\<exists>p\<in>set (GetAxisPoints a). r = m_physicalCoordinate p \<and> \<bar>m_value p - v\<bar> \<le> tol"
proof -
  let ?pts = "GetAxisPoints a"
  let ?k = "value_position tol a v"
  from GetPhysicalCoordinate_success [OF ok] have k: "?k < length ?pts" by simp
  then have mem: "?pts ! ?k \<in> set ?pts" by simp
  have eq: "point_eq tol (?pts ! ?k) v"
  proof (rule ccontr)
    assume ne: "\<not> point_eq tol (?pts ! ?k) v"
    with GetPhysicalCoordinate_success [OF ok] have pos: "0 < ?k" by simp
    from k have "0 < length ?pts" by (rule le_less_trans [OF le0])
    then have mem0: "?pts ! 0 \<in> set ?pts" by (rule nth_mem)
    show False
    proof (cases "IsReversed a")
      case False
      then have vp: "?k = lower_bound ?pts v" by (simp add: value_position_def)
      from lower_bound_before [of 0 ?pts v] pos vp have lo: "m_value (?pts ! 0) < v" by simp
      from lower_bound_at [of ?pts v] k vp have hi: "v \<le> m_value (?pts ! ?k)" by simp
      from out lo hi mem mem0 show False by force
    next
      case True
      then have vp: "?k = reversed_search tol ?pts v" by (simp add: value_position_def)
      from reversed_search_before [of 0 tol ?pts v] pos vp
      have hi: "v < m_value (?pts ! 0)" by simp
      from reversed_search_at [of tol ?pts v] k vp
      have "m_value (?pts ! ?k) \<le> v \<or> compare_doubles tol v (m_value (?pts ! ?k))" by simp
      moreover from ne have "\<not> compare_doubles tol v (m_value (?pts ! ?k))"
        by (simp add: point_eq_def compare_doubles_def abs_minus_commute)
      ultimately have lo: "m_value (?pts ! ?k) \<le> v" by simp
      from out lo hi mem mem0 show False by force
    qed
  qed
  with GetPhysicalCoordinate_success [OF ok]
  have "r = m_physicalCoordinate (?pts ! ?k)" by simp
  moreover from eq have "\<bar>m_value (?pts ! ?k) - v\<bar> \<le> tol"
    by (simp add: point_eq_def compare_doubles_def)
  ultimately show ?thesis using mem by blast
qed

text \<open>
  C3, as stated, fails for a value that is outside of the span of the AxisPoints by
  less than the tolerance of \<open>compare_doubles\<close>: on the reversed axis with the points
  2, 1, 0 and a tolerance of one millionth, the value \<open>-0.0000005\<close> is accepted by
  the search loop and answered with the pixel of the point 0.
\<close>

theorem out_of_range_tolerance_counterexample:
  "map m_value (GetAxisPoints reversed_axis) = [2, 1, 0] \<and>
   GetPhysicalCoordinate (1 / 1000000) reversed_axis (- 1 / 2000000) = (True, 20)"
  by (simp add: GetPhysicalCoordinate_def value_position_def GetAxisPointsCount_eq
      GetAxisPoints_def IsReversed_def reversed_axis_def bottom_axis_def mk_point_def
      point_eq_def compare_doubles_def Let_def)

text \<open>
  C3 (amended): for a value that lies outside of the span of the AxisPoint values
  by more than the tolerance of the comparison, \<open>GetPhysicalCoordinate\<close> returns
  false (and the result -1); on an axis that is not reversed it returns false for
  every value above all of the AxisPoint values, whatever the tolerance; for a pixel
  outside of the span of the AxisPoint pixel coordinates,
  \<open>GetValueFromPhysicalCoordinate\<close> returns false (and the value -1). Whenever one
  of the two returns true, the result lies between the pixel coordinates (the values)
  of two AxisPoints, so it is never extrapolated; and whenever
  \<open>GetPhysicalCoordinate\<close> returns true for a value strictly outside of the span of
  the AxisPoint values, the result is the pixel coordinate of an AxisPoint whose
  value is within the tolerance of that value. The collection of an axis that is not
  reversed is sorted by value, as \<open>std::lower_bound\<close> requires.
\<close>

theorem out_of_range_mapping_fails:
  assumes "0 \<le> tol" and "IsReversed a \<or> sorted (map m_value (GetAxisPoints a))"
  shows "((\<forall>p\<in>set (GetAxisPoints a). v < m_value p - tol) \<or>
          (\<forall>p\<in>set (GetAxisPoints a). m_value p + tol < v)
            \<longrightarrow> GetPhysicalCoordinate tol a v = (False, - 1)) \<and>
         ((\<forall>p\<in>set (GetAxisPoints a). c < m_physicalCoordinate p) \<or>
          (\<forall>p\<in>set (GetAxisPoints a). m_physicalCoordinate p < c)
            \<longrightarrow> GetValueFromPhysicalCoordinate a c = (False, - 1)) \<and>
         (GetPhysicalCoordinate tol a v = (True, r) \<longrightarrow>
            (\<exists>p\<in>set (GetAxisPoints a). \<exists>q\<in>set (GetAxisPoints a).
               min (m_physicalCoordinate p) (m_physicalCoordinate q) \<le> r \<and>
               r \<le> max (m_physicalCoordinate p) (m_physicalCoordinate q))) \<and>
         (GetValueFromPhysicalCoordinate a c = (True, x) \<longrightarrow>
            (\<exists>p\<in>set (GetAxisPoints a). \<exists>q\<in>set (GetAxisPoints a).
               min (m_value p) (m_value q) \<le> x \<and> x \<le> max (m_value p) (m_value q))) \<and>
         (\<not> IsReversed a \<and> (\<forall>p\<in>set (GetAxisPoints a). m_value p < v)
            \<longrightarrow> GetPhysicalCoordinate tol a v = (False, - 1)) \<and>
         (((\<forall>p\<in>set (GetAxisPoints a). v < m_value p) \<or>
           (\<forall>p\<in>set (GetAxisPoints a). m_value p < v)) \<and>
          GetPhysicalCoordinate tol a v = (True, r)
            \<longrightarrow> (\<exists>p\<in>set (GetAxisPoints a).
                   r = m_physicalCoordinate p \<and> \<bar>m_value p - v\<bar> \<le> tol))"
proof (intro conjI impI)
  assume "(\<forall>p\<in>set (GetAxisPoints a). v < m_value p - tol) \<or>
          (\<forall>p\<in>set (GetAxisPoints a). m_value p + tol < v)"
  then show "GetPhysicalCoordinate tol a v = (False, - 1)"
    using value_position_below [OF assms(1)] value_position_above [OF assms(1)] by blast
next
  assume "(\<forall>p\<in>set (GetAxisPoints a). c < m_physicalCoordinate p) \<or>
          (\<forall>p\<in>set (GetAxisPoints a). m_physicalCoordinate p < c)"
  then show "GetValueFromPhysicalCoordinate a c = (False, - 1)"
    using pixel_below pixel_above by blast
next
  assume "GetPhysicalCoordinate tol a v = (True, r)"
  then show "\<exists>p\<in>set (GetAxisPoints a). \<exists>q\<in>set (GetAxisPoints a).
               min (m_physicalCoordinate p) (m_physicalCoordinate q) \<le> r \<and>
               r \<le> max (m_physicalCoordinate p) (m_physicalCoordinate q)"
    by (rule GetPhysicalCoordinate_within)
next
  assume "GetValueFromPhysicalCoordinate a c = (True, x)"
  then show "\<exists>p\<in>set (GetAxisPoints a). \<exists>q\<in>set (GetAxisPoints a).
               min (m_value p) (m_value q) \<le> x \<and> x \<le> max (m_value p) (m_value q)"
    by (rule GetValueFromPhysicalCoordinate_within)
next
  assume "\<not> IsReversed a \<and> (\<forall>p\<in>set (GetAxisPoints a). m_value p < v)"
  then show "GetPhysicalCoordinate tol a v = (False, - 1)"
    using value_above_not_reversed by blast
next
  assume "((\<forall>p\<in>set (GetAxisPoints a). v < m_value p) \<or>
           (\<forall>p\<in>set (GetAxisPoints a). m_value p < v)) \<and>
          GetPhysicalCoordinate tol a v = (True, r)"
  then show "\<exists>p\<in>set (GetAxisPoints a). r = m_physicalCoordinate p \<and> \<bar>m_value p - v\<bar> \<le> tol"
    using value_outside_accepted [of a v tol r] by blast
qed


lemmas mapping_defs = GetPhysicalCoordinate_def GetValueFromPhysicalCoordinate_def
  value_position_def GetAxisPointsCount_eq GetAxisPoints_def IsReversed_def IsHorizontal_def
  IsVertical_def forward_axis_def reversed_axis_def bottom_axis_def mk_point_def point_eq_def
  point_less_def compare_doubles_def safe_divide_def trunc_int_def Let_def

theorem out_of_range_mapping_fails_witness:
  "(0::real) \<le> 1 / 1000000 \<and>
   (IsReversed forward_axis \<or> sorted (map m_value (GetAxisPoints forward_axis))) \<and>
   map m_value (GetAxisPoints forward_axis) = [0, 1, 2] \<and>
   GetPhysicalCoordinate (1 / 1000000) forward_axis 3 = (False, - 1) \<and>
   map m_physicalCoordinate (GetAxisPoints forward_axis) = [0, 10, 20] \<and>
   GetValueFromPhysicalCoordinate forward_axis 25 = (False, - 1) \<and>
   GetPhysicalCoordinate (1 / 1000000) forward_axis (3 / 2) = (True, 15) \<and>
   GetValueFromPhysicalCoordinate forward_axis 15 = (True, 3 / 2) \<and>
   \<not> IsReversed forward_axis \<and>
   GetPhysicalCoordinate (1 / 1000000) forward_axis (2 + 1 / 2000000) = (False, - 1) \<and>
   IsReversed reversed_axis \<and>
   map m_value (GetAxisPoints reversed_axis) = [2, 1, 0] \<and>
   map m_physicalCoordinate (GetAxisPoints reversed_axis) = [0, 10, 20] \<and>
   GetPhysicalCoordinate (1 / 1000000) reversed_axis (- 1 / 2000000) = (True, 20) \<and>
   \<bar>m_value (GetAxisPoints reversed_axis ! 2) - (- 1 / 2000000)\<bar> \<le> 1 / 1000000"
proof -
  have t: "(0::real) \<le> 1 / 1000000" by simp
  have s: "IsReversed forward_axis \<or> sorted (map m_value (GetAxisPoints forward_axis))"
    and s': "IsReversed reversed_axis \<or> sorted (map m_value (GetAxisPoints reversed_axis))"
    and h1: "\<forall>p\<in>set (GetAxisPoints forward_axis). m_value p + 1 / 1000000 < 3"
    and h2: "\<forall>p\<in>set (GetAxisPoints forward_axis). m_physicalCoordinate p < 25"
    and h3: "GetPhysicalCoordinate (1 / 1000000) forward_axis (3 / 2) = (True, 15)"
    and h4: "GetValueFromPhysicalCoordinate forward_axis 15 = (True, 3 / 2)"
    and h5: "\<not> IsReversed forward_axis"
      "\<forall>p\<in>set (GetAxisPoints forward_axis). m_value p < 2 + 1 / 2000000"
    and h6: "IsReversed reversed_axis"
      "\<forall>p\<in>set (GetAxisPoints reversed_axis). - 1 / 2000000 < m_value p"
      "GetPhysicalCoordinate (1 / 1000000) reversed_axis (- 1 / 2000000) = (True, 20)"
    and h7: "map m_value (GetAxisPoints reversed_axis) = [2, 1, 0]"
      "map m_physicalCoordinate (GetAxisPoints reversed_axis) = [0, 10, 20]"
      "\<bar>m_value (GetAxisPoints reversed_axis ! 2) - (- 1 / 2000000)\<bar> \<le> 1 / 1000000"
    by (simp_all add: mapping_defs)
  show ?thesis
    using t s h1 h2 h3 h4 h5 h6 h7 out_of_range_mapping_fails [OF t s, of 3 25 0 0]
      out_of_range_mapping_fails [OF t s, of "3 / 2" 15 15 "3 / 2"]
      out_of_range_mapping_fails [OF t s, of "2 + 1 / 2000000" 0 0 0]
      out_of_range_mapping_fails [OF t s', of "- 1 / 2000000" 0 20 0]
    by (simp add: GetAxisPoints_def forward_axis_def mk_point_def)
qed

subsection \<open>Round trip at the axis points\<close>

lemmas SetPoints_defs = SetPoints_def CalcBestScalingToFitLabels_def CalcMaxLabelWidth_def
  CalcTickMarkPositions_def tick_loop_returns_def CalcLabelPositions_def
  SetLabelPhysicalOffset_def GetLabelPhysicalOffset_def SetAxisLabelScaling_def displayedLabelsCount_def axisWidth_def
  IsPointDisplayingLabel_def GetDisplayableValue_def GetCustomLabel_def GetLabelDisplay_def
  IsShowingLabels_def IsShowingOuterLabels_def IsStackingLabels_def GetTopPoint_def
  GetBottomPoint_def GetLeftPoint_def GetRightPoint_def safe_divide_long_def c_div_def
  GetAxisPointsCount_def invalid_label_def scaling_search.simps

lemma cramped_points: "map m_physicalCoordinate (m_axisLabels cramped_axis) = [0, 0, 1]"
  by (simp add: cramped_axis_def SetPoints_defs mapping_defs enumerate_eq_zip upt_rec)

lemma positioned_points: "map m_physicalCoordinate (m_axisLabels positioned_axis) = [0, 50, 100]"
  by (simp add: positioned_axis_def SetPoints_defs mapping_defs enumerate_eq_zip upt_rec)

lemma positioned_left_points: "map m_physicalCoordinate (m_axisLabels positioned_left_axis) = [100, 50, 0]"
  by (simp add: positioned_left_axis_def SetPoints_defs mapping_defs enumerate_eq_zip upt_rec)


lemmas positioned_defs = cramped_axis_def positioned_axis_def positioned_left_axis_def
  SetPoints_defs mapping_defs enumerate_eq_zip upt_rec

text \<open>
  C1, as stated, fails when two AxisPoints share a pixel: three points on a line of
  one pixel get the coordinates 0, 0, 1 from \<open>SetPoints\<close>; the value 1 maps to the
  pixel 0, and the pixel 0 maps back to the value 0 of the first point.
\<close>

theorem round_trip_shared_pixel_counterexample:
  "GetPhysicalCoordinate 0 cramped_axis 1 = (True, 0) \<and>
   GetValueFromPhysicalCoordinate cramped_axis 0 = (True, 0)"
  by (simp add: positioned_defs)

text \<open>
  C1 (amended): on an axis whose AxisPoints are in strict value order (ascending, or
  descending and more than the comparison tolerance apart on a reversed axis) and
  whose pixel coordinates are strictly increasing along the collection on a horizontal
  axis and strictly decreasing on a vertical one, for the value of every AxisPoint
  \<open>GetPhysicalCoordinate\<close> succeeds with the pixel of the point, and
  \<open>GetValueFromPhysicalCoordinate\<close> of that pixel succeeds with that same value.
\<close>

theorem round_trip_at_axis_points:
  assumes tol: "0 \<le> tol"
    and vals: "if IsReversed a
               then sorted_wrt (\<lambda>x y. y + tol < x) (map m_value (GetAxisPoints a))
               else sorted_wrt (<) (map m_value (GetAxisPoints a))"
    and coords: "if IsHorizontal a
                 then sorted_wrt (<) (map m_physicalCoordinate (GetAxisPoints a))
                 else sorted_wrt (>) (map m_physicalCoordinate (GetAxisPoints a))"
    and p: "p \<in> set (GetAxisPoints a)"
  shows "GetPhysicalCoordinate tol a (m_value p) = (True, m_physicalCoordinate p) \<and>
         GetValueFromPhysicalCoordinate a (m_physicalCoordinate p) = (True, m_value p)"
proof -
  let ?pts = "GetAxisPoints a"
  from p obtain k where k: "k < length ?pts" and pk: "?pts ! k = p"
    by (auto simp add: in_set_conv_nth)
  have pos: "value_position tol a (m_value p) = k"
  proof (cases "IsReversed a")
    case True
    with vals have "\<forall>i<k. m_value (?pts ! k) + tol < m_value (?pts ! i)"
      using k by (simp add: sorted_wrt_iff_nth_less)
    with tol pk have "\<forall>i<k. m_value p < m_value (?pts ! i) \<and>
                        \<not> compare_doubles tol (m_value p) (m_value (?pts ! i))"
      by (auto simp add: compare_doubles_def)
    with k pk have "reversed_search tol ?pts (m_value p) = k"
      by (intro reversed_search_eq) simp_all
    with True show ?thesis by (simp add: value_position_def)
  next
    case False
    with vals have "\<forall>i<k. m_value (?pts ! i) < m_value (?pts ! k)"
      using k by (simp add: sorted_wrt_iff_nth_less)
    with k pk have "lower_bound ?pts (m_value p) = k"
      by (intro lower_bound_eq) simp_all
    with False show ?thesis by (simp add: value_position_def)
  qed
  have "point_eq tol (?pts ! k) (m_value p)"
    using tol pk by (simp add: point_eq_def compare_doubles_def)
  from GetPhysicalCoordinate_hit [OF k pos this] pk
  have 1: "GetPhysicalCoordinate tol a (m_value p) = (True, m_physicalCoordinate p)" by simp
  have "coordinate_search a ?pts (m_physicalCoordinate p) = Some k"
  proof (cases "IsHorizontal a")
    case True
    with coords have "\<forall>i<k. m_physicalCoordinate (?pts ! i) < m_physicalCoordinate (?pts ! k)"
      using k by (simp add: sorted_wrt_iff_nth_less)
    with True k pk show ?thesis by (intro coordinate_search_horizontal_eq) simp_all
  next
    case False
    with coords have "\<forall>i<k. m_physicalCoordinate (?pts ! k) < m_physicalCoordinate (?pts ! i)"
      using k by (simp add: sorted_wrt_iff_nth_less)
    with False k pk show ?thesis by (intro coordinate_search_vertical_eq) simp_all
  qed
  from GetValueFromPhysicalCoordinate_hit [OF k this] pk
  have 2: "GetValueFromPhysicalCoordinate a (m_physicalCoordinate p) = (True, m_value p)" by simp
  from 1 2 show ?thesis by simp
qed


theorem round_trip_at_axis_points_witness:
  "mk_point 1 50 \<in> set (GetAxisPoints positioned_axis) \<and>
   GetPhysicalCoordinate (1 / 1000000) positioned_axis 1 = (True, 50) \<and>
   GetValueFromPhysicalCoordinate positioned_axis 50 = (True, 1) \<and>
   mk_point 1 50 \<in> set (GetAxisPoints positioned_left_axis) \<and>
   GetPhysicalCoordinate (1 / 1000000) positioned_left_axis 1 = (True, 50) \<and>
   GetValueFromPhysicalCoordinate positioned_left_axis 50 = (True, 1)"
proof -
  have t: "(0::real) \<le> 1 / 1000000" by simp
  have v1: "if IsReversed positioned_axis
               then sorted_wrt (\<lambda>x y. y + 1 / 1000000 < x) (map m_value (GetAxisPoints positioned_axis))
               else sorted_wrt (<) (map m_value (GetAxisPoints positioned_axis))"
    and o1: "if IsHorizontal positioned_axis
                 then sorted_wrt (<) (map m_physicalCoordinate (GetAxisPoints positioned_axis))
                 else sorted_wrt (>) (map m_physicalCoordinate (GetAxisPoints positioned_axis))"
    and p1: "mk_point 1 50 \<in> set (GetAxisPoints positioned_axis)"
    and v2: "if IsReversed positioned_left_axis
               then sorted_wrt (\<lambda>x y. y + 1 / 1000000 < x) (map m_value (GetAxisPoints positioned_left_axis))
               else sorted_wrt (<) (map m_value (GetAxisPoints positioned_left_axis))"
    and o2: "if IsHorizontal positioned_left_axis
                 then sorted_wrt (<) (map m_physicalCoordinate (GetAxisPoints positioned_left_axis))
                 else sorted_wrt (>) (map m_physicalCoordinate (GetAxisPoints positioned_left_axis))"
    and p2: "mk_point 1 50 \<in> set (GetAxisPoints positioned_left_axis)"
    by (simp_all add: positioned_defs)
  show ?thesis
    using p1 p2 round_trip_at_axis_points [OF t v1 o1 p1] round_trip_at_axis_points [OF t v2 o2 p2]
    by (simp add: mk_point_def)
qed


subsection \<open>Monotonicity of the coordinate mapping\<close>

text \<open>
  Monotonicity for coordinates that grow along the collection (\<open>s = 1\<close>) or fall
  along it (\<open>s = -1\<close>).
\<close>

lemma GetPhysicalCoordinate_mono_signed:
  fixes s :: int
  assumes s: "s = 1 \<or> s = - 1"
    and fw: "\<not> IsReversed a"
    and mono: "\<And>i j. i \<le> j \<Longrightarrow> j < length (GetAxisPoints a) \<Longrightarrow>
                 s * m_physicalCoordinate (GetAxisPoints a ! i)
                   \<le> s * m_physicalCoordinate (GetAxisPoints a ! j)"
    and lt: "v1 < v2"
    and ok1: "GetPhysicalCoordinate tol a v1 = (True, r1)"
    and ok2: "GetPhysicalCoordinate tol a v2 = (True, r2)"
  shows "s * r1 \<le> s * r2"
proof -
  let ?pts = "GetAxisPoints a"
  define ph where "ph i = m_physicalCoordinate (?pts ! i)" for i
  define va where "va i = m_value (?pts ! i)" for i
  define T where "T k v = trunc_int (real_of_int (ph (k - 1)) + real_of_int (ph k - ph (k - 1)) *
                    safe_divide (v - va (k - 1)) (va k - va (k - 1)))" for k v
  define k1 where "k1 = lower_bound ?pts v1"
  define k2 where "k2 = lower_bound ?pts v2"
  from fw have vp: "value_position tol a v1 = k1" "value_position tol a v2 = k2"
    by (simp_all add: value_position_def k1_def k2_def)
  from GetPhysicalCoordinate_success [OF ok1]
  have b1: "k1 < length ?pts" and c1: "if point_eq tol (?pts ! k1) v1 then r1 = ph k1
                                      else 0 < k1 \<and> r1 = T k1 v1"
    unfolding vp by (simp_all add: ph_def va_def T_def)
  from GetPhysicalCoordinate_success [OF ok2]
  have b2: "k2 < length ?pts" and c2: "if point_eq tol (?pts ! k2) v2 then r2 = ph k2
                                      else 0 < k2 \<and> r2 = T k2 v2"
    unfolding vp by (simp_all add: ph_def va_def T_def)
  have mono': "\<And>i j. i \<le> j \<Longrightarrow> j < length ?pts \<Longrightarrow> s * ph i \<le> s * ph j"
    using mono by (simp add: ph_def)
  have pr1: "\<not> point_eq tol (?pts ! k1) v1 \<Longrightarrow>
    0 \<le> safe_divide (v1 - va (k1 - 1)) (va k1 - va (k1 - 1)) \<and>
    safe_divide (v1 - va (k1 - 1)) (va k1 - va (k1 - 1)) \<le> 1"
    using percentage_range [of tol a v1] b1 c1 unfolding vp by (simp add: va_def)
  have pr2: "\<not> point_eq tol (?pts ! k2) v2 \<Longrightarrow>
    0 \<le> safe_divide (v2 - va (k2 - 1)) (va k2 - va (k2 - 1)) \<and>
    safe_divide (v2 - va (k2 - 1)) (va k2 - va (k2 - 1)) \<le> 1"
    using percentage_range [of tol a v2] b2 c2 unfolding vp by (simp add: va_def)
  have upper1: "s * r1 \<le> s * ph k1"
  proof (cases "point_eq tol (?pts ! k1) v1")
    case True
    with c1 show ?thesis by simp
  next
    case False
    with c1 have p: "0 < k1" and r: "r1 = T k1 v1" by simp_all
    from pr1 [OF False] have "min (ph (k1 - 1)) (ph k1) \<le> r1 \<and> r1 \<le> max (ph (k1 - 1)) (ph k1)"
      unfolding r T_def by (intro trunc_between) simp_all
    moreover from mono' [of "k1 - 1" k1] b1 have "s * ph (k1 - 1) \<le> s * ph k1" by simp
    ultimately show ?thesis using s by auto
  qed
  have lower2: "\<not> point_eq tol (?pts ! k2) v2 \<Longrightarrow> s * ph (k2 - 1) \<le> s * r2"
  proof -
    assume ne: "\<not> point_eq tol (?pts ! k2) v2"
    with c2 have p: "0 < k2" and r: "r2 = T k2 v2" by simp_all
    from pr2 [OF ne] have "min (ph (k2 - 1)) (ph k2) \<le> r2 \<and> r2 \<le> max (ph (k2 - 1)) (ph k2)"
      unfolding r T_def by (intro trunc_between) simp_all
    moreover from mono' [of "k2 - 1" k2] b2 have "s * ph (k2 - 1) \<le> s * ph k2" by simp
    ultimately show ?thesis using s by auto
  qed
  have before1: "\<forall>i<k1. m_value (?pts ! i) < v2"
    using lower_bound_before [of _ ?pts v1] lt unfolding k1_def by force
  from b1 have le12: "k1 \<le> k2" unfolding k2_def
    using before1 by (intro lower_bound_ge) simp_all
  show ?thesis
  proof (cases "k1 < k2")
    case True
    show ?thesis
    proof (cases "point_eq tol (?pts ! k2) v2")
      case eq: True
      with c2 have "r2 = ph k2" by simp
      moreover from mono' [of k1 k2] le12 b2 have "s * ph k1 \<le> s * ph k2" by simp
      ultimately show ?thesis using upper1 by simp
    next
      case ne: False
      from mono' [of k1 "k2 - 1"] True b2 have "s * ph k1 \<le> s * ph (k2 - 1)" by simp
      with upper1 lower2 [OF ne] show ?thesis by simp
    qed
  next
    case False
    with le12 have same: "k2 = k1" by simp
    from b1 lower_bound_at [of ?pts v2] same have hi2: "v2 \<le> va k1"
      by (simp add: k2_def va_def)
    show ?thesis
    proof (cases "point_eq tol (?pts ! k1) v2")
      case eq2: True
      with c2 same have "r2 = ph k1" by simp
      with upper1 show ?thesis by simp
    next
      case ne2: False
      have ne1: "\<not> point_eq tol (?pts ! k1) v1"
      proof
        assume "point_eq tol (?pts ! k1) v1"
        with lt hi2 have "point_eq tol (?pts ! k1) v2"
          by (simp add: point_eq_def compare_doubles_def va_def)
        with ne2 show False by simp
      qed
      from ne1 c1 have p: "0 < k1" and r1: "r1 = T k1 v1" by simp_all
      from ne2 c2 same have r2: "r2 = T k1 v2" by simp
      from p have "k1 - 1 < k1" by simp
      from lower_bound_before [of "k1 - 1" ?pts v1] this have lo1: "va (k1 - 1) < v1"
        by (simp add: k1_def va_def)
      from lo1 lt hi2 have den: "0 < va k1 - va (k1 - 1)" by simp
      from lo1 lt den have frac: "safe_divide (v1 - va (k1 - 1)) (va k1 - va (k1 - 1))
            \<le> safe_divide (v2 - va (k1 - 1)) (va k1 - va (k1 - 1))"
        by (simp add: safe_divide_def divide_right_mono)
      from mono' [of "k1 - 1" k1] b1 have d: "s * ph (k1 - 1) \<le> s * ph k1" by simp
      from s show ?thesis
      proof
        assume s1: "s = 1"
        with d have "0 \<le> real_of_int (ph k1 - ph (k1 - 1))" by simp
        from mult_left_mono [OF frac this]
        have "trunc_int (real_of_int (ph (k1 - 1)) + real_of_int (ph k1 - ph (k1 - 1)) *
                    safe_divide (v1 - va (k1 - 1)) (va k1 - va (k1 - 1)))
              \<le> trunc_int (real_of_int (ph (k1 - 1)) + real_of_int (ph k1 - ph (k1 - 1)) *
                    safe_divide (v2 - va (k1 - 1)) (va k1 - va (k1 - 1)))"
          by (intro trunc_int_mono) simp
        then show ?thesis using s1 by (simp add: r1 r2 T_def)
      next
        assume s2: "s = - 1"
        with d have "real_of_int (ph k1 - ph (k1 - 1)) \<le> 0" by simp
        from mult_left_mono_neg [OF frac this]
        have "trunc_int (real_of_int (ph (k1 - 1)) + real_of_int (ph k1 - ph (k1 - 1)) *
                    safe_divide (v2 - va (k1 - 1)) (va k1 - va (k1 - 1)))
              \<le> trunc_int (real_of_int (ph (k1 - 1)) + real_of_int (ph k1 - ph (k1 - 1)) *
                    safe_divide (v1 - va (k1 - 1)) (va k1 - va (k1 - 1)))"
          by (intro trunc_int_mono) simp
        then show ?thesis using s2 by (simp add: r1 r2 T_def)
      qed
    qed
  qed
qed


lemma CalcBestScalingToFitLabels_frame:
  "m_axisLabels (snd (CalcBestScalingToFitLabels w h pad a)) = m_axisLabels a \<and>
   m_scaledReserved (snd (CalcBestScalingToFitLabels w h pad a)) = m_scaledReserved a \<and>
   m_type (snd (CalcBestScalingToFitLabels w h pad a)) = m_type a"
  by (simp add: CalcBestScalingToFitLabels_def CalcMaxLabelWidth_def SetAxisLabelScaling_def
      Let_def)

lemma SetPoints_frame:
  assumes "SetPoints w h pad pt1 pt2 a = Some a'"
  shows "IsReversed a' = IsReversed a \<and> IsHorizontal a' = IsHorizontal a \<and>
         IsVertical a' = IsVertical a \<and>
         length (GetAxisPoints a') = length (GetAxisPoints a)"
  using assms
  by (auto simp add: SetPoints_def CalcBestScalingToFitLabels_frame CalcTickMarkPositions_def
      CalcLabelPositions_def SetLabelPhysicalOffset_def IsReversed_def IsHorizontal_def
      IsVertical_def GetAxisPoints_def Let_def split: option.splits if_splits)

lemma SetPoints_returns:
  "(\<exists>a'. SetPoints w h pad pt1 pt2 a = Some a') = tick_loop_returns a"
proof -
  have "IsHorizontal a \<or> IsVertical a" by (rule axis_orientation)
  then show ?thesis
    by (auto simp add: SetPoints_def CalcTickMarkPositions_def CalcLabelPositions_def
        SetLabelPhysicalOffset_def tick_loop_returns_def IsHorizontal_def IsVertical_def
        Let_def split: option.splits)
qed

lemma SetPoints_coordinates:
  assumes ok: "SetPoints w h pad pt1 pt2 a = Some a'"
  shows "\<exists>x0 offset. 0 \<le> offset \<and>
     (\<forall>i<length (GetAxisPoints a).
        m_value (GetAxisPoints a' ! i) = m_value (GetAxisPoints a ! i) \<and>
        m_physicalCoordinate (GetAxisPoints a' ! i) =
          (if IsVertical a then trunc_int (x0 - offset * real i)
           else trunc_int (x0 + offset * real i)))"
proof -
  define a1 where "a1 = (if IsVertical a
                then (if pt_y pt1 < pt_y pt2 then a\<lparr>m_points := (pt1, pt2)\<rparr>
                      else a\<lparr>m_points := (pt2, pt1)\<rparr>)
                else (if pt_x pt1 < pt_x pt2 then a\<lparr>m_points := (pt1, pt2)\<rparr>
                      else a\<lparr>m_points := (pt2, pt1)\<rparr>))"
  define a2 where "a2 = CalcLabelPositions a1"
  have pts: "m_axisLabels a2 = m_axisLabels a" and ty: "m_type a2 = m_type a"
    by (simp_all add: a2_def a1_def CalcLabelPositions_def SetLabelPhysicalOffset_def Let_def)
  have un: "\<And>w :: 64 word. 0 \<le> (unsigned w :: real)"
  proof -
    fix w :: "64 word"
    have "0 \<le> real (unat w)" by (rule of_nat_0_le_iff)
    then show "0 \<le> (unsigned w :: real)" by simp
  qed
  have nn: "\<And>x y. 0 \<le> x \<Longrightarrow> 0 \<le> y \<Longrightarrow> 0 \<le> safe_divide x y"
    by (simp add: safe_divide_def)
  have off: "0 \<le> GetLabelPhysicalOffset a2"
  proof (cases "IsVertical a1")
    case True
    then show ?thesis
      by (simp add: a2_def CalcLabelPositions_def SetLabelPhysicalOffset_def
          GetLabelPhysicalOffset_def Let_def nn un)
  next
    case False
    with axis_orientation [of a1] have "IsHorizontal a1" by simp
    with False show ?thesis
      by (simp add: a2_def CalcLabelPositions_def SetLabelPhysicalOffset_def
          GetLabelPhysicalOffset_def Let_def nn un)
  qed
  from ok obtain a3 where a3: "CalcTickMarkPositions a2 = Some a3"
    and sp: "m_axisLabels a' = m_axisLabels a3"
    by (auto simp add: SetPoints_def a2_def a1_def CalcBestScalingToFitLabels_frame Let_def
        split: option.splits)
  show ?thesis
  proof (cases "IsVertical a")
    case True
    then have v2: "IsVertical a2" using ty by (simp add: IsVertical_def)
    show ?thesis
      apply (rule exI [of _ "real_of_int (pt_y (GetTopPoint a2)) +
                                (real_of_int (pt_y (GetBottomPoint a2)) -
                                 real_of_int (pt_y (GetTopPoint a2)))"])
      apply (rule exI [of _ "GetLabelPhysicalOffset a2"])
      using off True v2 pts a3
      apply (auto simp add: sp CalcTickMarkPositions_def GetAxisPoints_def nth_enumerate_eq
          split: if_splits)
      done
  next
    case False
    with axis_orientation [of a] have h: "IsHorizontal a" by simp
    then have h2: "IsHorizontal a2" "\<not> IsVertical a2" using ty False
      by (simp_all add: IsHorizontal_def IsVertical_def)
    show ?thesis
      apply (rule exI [of _ "real_of_int (pt_x (GetLeftPoint a2))"])
      apply (rule exI [of _ "GetLabelPhysicalOffset a2"])
      using off False h2 pts a3
      apply (auto simp add: sp CalcTickMarkPositions_def GetAxisPoints_def nth_enumerate_eq
          split: if_splits)
      done
  qed
qed

text \<open>
  C2: on an axis that is not reversed (its collection sorted by value), after
  \<open>SetPoints\<close> has assigned the physical endpoints, for any two values
  \<open>v1 < v2\<close> at which \<open>GetPhysicalCoordinate\<close> succeeds, the pixel of \<open>v1\<close> is at
  most the pixel of \<open>v2\<close> on a horizontal axis and at least the pixel of \<open>v2\<close> on a
  vertical axis.
\<close>

theorem GetPhysicalCoordinate_monotone:
  assumes fw: "\<not> IsReversed a" and sorted: "sorted (map m_value (GetAxisPoints a))"
    and sp: "SetPoints w h pad pt1 pt2 a = Some a'"
    and lt: "v1 < v2"
    and ok1: "GetPhysicalCoordinate tol a' v1 = (True, r1)"
    and ok2: "GetPhysicalCoordinate tol a' v2 = (True, r2)"
  shows "(IsHorizontal a \<longrightarrow> r1 \<le> r2) \<and> (IsVertical a \<longrightarrow> r2 \<le> r1)"
proof -
  from fw have fw': "\<not> IsReversed a'" by (simp add: SetPoints_frame [OF sp])
  from SetPoints_coordinates [OF sp]
  obtain x0 offset where off: "0 \<le> offset"
    and co: "\<And>i. i < length (GetAxisPoints a) \<Longrightarrow>
        m_physicalCoordinate (GetAxisPoints a' ! i) =
          (if IsVertical a then trunc_int (x0 - offset * real i)
           else trunc_int (x0 + offset * real i))" by blast
  have len: "length (GetAxisPoints a') = length (GetAxisPoints a)"
    by (simp add: SetPoints_frame [OF sp])
  have vert: "r2 \<le> r1" if v: "IsVertical a"
  proof -
    have "\<And>i j. i \<le> j \<Longrightarrow> j < length (GetAxisPoints a') \<Longrightarrow>
            - 1 * m_physicalCoordinate (GetAxisPoints a' ! i)
              \<le> - 1 * m_physicalCoordinate (GetAxisPoints a' ! j)"
    proof -
      fix i j :: nat assume ij: "i \<le> j" "j < length (GetAxisPoints a')"
      then have "offset * real i \<le> offset * real j" using off by (simp add: mult_left_mono)
      then have "trunc_int (x0 - offset * real j) \<le> trunc_int (x0 - offset * real i)"
        by (intro trunc_int_mono) simp
      with ij len v show "- 1 * m_physicalCoordinate (GetAxisPoints a' ! i)
              \<le> - 1 * m_physicalCoordinate (GetAxisPoints a' ! j)"
        by (simp add: co)
    qed
    from GetPhysicalCoordinate_mono_signed [of "- 1", OF _ fw' this lt ok1 ok2]
    show ?thesis by simp
  qed
  have horiz: "r1 \<le> r2" if h: "IsHorizontal a"
  proof -
    from h have nv: "\<not> IsVertical a" by (auto simp add: IsHorizontal_def IsVertical_def)
    have "\<And>i j. i \<le> j \<Longrightarrow> j < length (GetAxisPoints a') \<Longrightarrow>
            1 * m_physicalCoordinate (GetAxisPoints a' ! i)
              \<le> 1 * m_physicalCoordinate (GetAxisPoints a' ! j)"
    proof -
      fix i j :: nat assume ij: "i \<le> j" "j < length (GetAxisPoints a')"
      then have "offset * real i \<le> offset * real j" using off by (simp add: mult_left_mono)
      then have "trunc_int (x0 + offset * real i) \<le> trunc_int (x0 + offset * real j)"
        by (intro trunc_int_mono) simp
      with ij len nv show "1 * m_physicalCoordinate (GetAxisPoints a' ! i)
              \<le> 1 * m_physicalCoordinate (GetAxisPoints a' ! j)"
        by (simp add: co)
    qed
    from GetPhysicalCoordinate_mono_signed [of 1, OF _ fw' this lt ok1 ok2]
    show ?thesis by simp
  qed
  from vert horiz show ?thesis by simp
qed

theorem GetPhysicalCoordinate_monotone_witness:
  "\<not> IsReversed forward_axis \<and> sorted (map m_value (GetAxisPoints forward_axis)) \<and>
   IsHorizontal forward_axis \<and>
   SetPoints (\<lambda>s. 10) (\<lambda>s. 10) 2 \<lparr>pt_x = 0, pt_y = 0\<rparr> \<lparr>pt_x = 100, pt_y = 0\<rparr> forward_axis
     = Some positioned_axis \<and>
   GetPhysicalCoordinate 0 positioned_axis (1 / 2) = (True, 25) \<and>
   GetPhysicalCoordinate 0 positioned_axis (3 / 2) = (True, 75) \<and> (25 :: int) \<le> 75 \<and>
   IsVertical (forward_axis\<lparr>m_type := LeftYAxis\<rparr>) \<and>
   SetPoints (\<lambda>s. 10) (\<lambda>s. 10) 2 \<lparr>pt_x = 0, pt_y = 0\<rparr> \<lparr>pt_x = 0, pt_y = 100\<rparr>
       (forward_axis\<lparr>m_type := LeftYAxis\<rparr>)
     = Some positioned_left_axis \<and>
   GetPhysicalCoordinate 0 positioned_left_axis (1 / 2) = (True, 75) \<and>
   GetPhysicalCoordinate 0 positioned_left_axis (3 / 2) = (True, 25)"
proof -
  let ?left = "forward_axis\<lparr>m_type := LeftYAxis\<rparr>"
  have lt: "(1 / 2 :: real) < 3 / 2" by simp
  have f: "\<not> IsReversed forward_axis" "sorted (map m_value (GetAxisPoints forward_axis))"
    and o: "IsHorizontal forward_axis"
    and fl: "\<not> IsReversed ?left" "sorted (map m_value (GetAxisPoints ?left))"
    and ol: "IsVertical ?left"
    by (simp_all add: mapping_defs)
  have s1: "SetPoints (\<lambda>s. 10) (\<lambda>s. 10) 2 \<lparr>pt_x = 0, pt_y = 0\<rparr> \<lparr>pt_x = 100, pt_y = 0\<rparr>
              forward_axis = Some positioned_axis"
    and s2: "SetPoints (\<lambda>s. 10) (\<lambda>s. 10) 2 \<lparr>pt_x = 0, pt_y = 0\<rparr> \<lparr>pt_x = 0, pt_y = 100\<rparr>
              ?left = Some positioned_left_axis"
    by (simp_all add: positioned_defs)
  have h1: "GetPhysicalCoordinate 0 positioned_axis (1 / 2) = (True, 25)"
    and h2: "GetPhysicalCoordinate 0 positioned_axis (3 / 2) = (True, 75)"
    and v1: "GetPhysicalCoordinate 0 positioned_left_axis (1 / 2) = (True, 75)"
    and v2: "GetPhysicalCoordinate 0 positioned_left_axis (3 / 2) = (True, 25)"
    by (simp_all add: positioned_defs)
  show ?thesis
    using f o ol s1 s2 h1 h2 v1 v2
      GetPhysicalCoordinate_monotone [OF f s1 lt h1 h2]
      GetPhysicalCoordinate_monotone [OF fl s2 lt v1 v2]
    by simp
qed

end
